theory Spec2Isabelle
  imports
    Main
    "HOL-Library.Char_ord"
    "HOL-Library.List_Lexorder"
    "HOL-Library.AList"
begin

section \<open>Strings and exceptions\<close>

text \<open>
  The plugin \<^verbatim>\<open>plugins/komida_bot.py\<close> works on Python strings. They are modelled as
  \<^typ>\<open>string\<close>, a text outside ASCII by its UTF-8 bytes; every keyword the plugin looks
  for is ASCII, and an ASCII word occurs in the bytes where it occurs in the text.
  Strings are compared lexicographically, character by character (\<open>Char_ord\<close>,
  \<open>List_Lexorder\<close>), which is Python's order on \<^verbatim>\<open>str\<close>.

  A value of \<open>exn\<close> is what a \<^verbatim>\<open>raise\<close> carries: the three classes the plugin's own
  expressions can raise, \<open>Error msg\<close> for any other instance of \<^verbatim>\<open>Exception\<close> that a library
  or a collaborator (sqlite3, the Slack client, the refresh job) raises, and the two
  classes that derive from \<^verbatim>\<open>BaseException\<close> alone and can end any blocking call:
  \<^verbatim>\<open>KeyboardInterrupt\<close> and \<^verbatim>\<open>SystemExit\<close>. A computation that may raise returns
  \<open>exn + 'a\<close>, with \<open>Inl\<close> for the exception.
\<close>

datatype exn =
  AttributeError | KeyError | OverflowError | Error string | KeyboardInterrupt | SystemExit

text \<open>\<^verbatim>\<open>isinstance(e, Exception)\<close>: what a handler \<^verbatim>\<open>except Exception\<close> catches.\<close>

fun is_Exception :: "exn \<Rightarrow> bool" where
  "is_Exception KeyboardInterrupt = False"
| "is_Exception SystemExit = False"
| "is_Exception e = True"

text \<open>\<^verbatim>\<open>s.startswith(p)\<close>\<close>

fun startswith :: "string \<Rightarrow> string \<Rightarrow> bool" where
  "startswith s [] = True"
| "startswith [] (p # ps) = False"
| "startswith (c # s) (p # ps) = (c = p \<and> startswith s ps)"

text \<open>\<^verbatim>\<open>x in s\<close> on strings: \<open>x\<close> occurs in \<open>s\<close> as a contiguous substring.\<close>

fun str_in :: "string \<Rightarrow> string \<Rightarrow> bool" where
  "str_in x [] = (x = [])"
| "str_in x (c # s) = (startswith (c # s) x \<or> str_in x s)"

text \<open>\<^verbatim>\<open>sep.join(xs)\<close>\<close>

fun join :: "string \<Rightarrow> string list \<Rightarrow> string" where
  "join sep [] = []"
| "join sep [x] = x"
| "join sep (x # y # ys) = x @ sep @ join sep (y # ys)"

section \<open>The text classifier\<close>

subsection \<open>\<^verbatim>\<open>get_campus\<close>\<close>

definition campus_options :: "(string \<times> string list) list" where
  "campus_options =
     [(''cde'', [''cde'', ''drie eiken'']), (''cgb'', [''cgb'', ''groenenborger'']),
      (''cmi'', [''cmi'', ''middelheim'']), (''cst'', [''cst'', ''stad'', ''city''])]"

definition get_campus :: "string \<Rightarrow> string list" where
  "get_campus text =
     (let campus = sort (map fst (filter (\<lambda>(c_code, c_texts).
                       list_ex (\<lambda>c_text. str_in c_text text) c_texts) campus_options))
      in if length campus > 0 then campus else [''cmi''])"

subsection \<open>\<^verbatim>\<open>get_date\<close>\<close>

text \<open>
  \<^verbatim>\<open>today\<close> is \<^verbatim>\<open>datetime.datetime.today()\<close> with the time of day replaced by midnight,
  so a \<open>date\<close> is a calendar day: its proleptic Gregorian ordinal
  (\<^verbatim>\<open>toordinal()\<close>, day 1 is 0001-01-01, a Monday). The clock reading is a parameter
  of the model. \<^verbatim>\<open>weekday()\<close> is 0 on Monday and 6 on Sunday.
\<close>

type_synonym date = int

definition weekday :: "date \<Rightarrow> int" where
  "weekday d = (d + 6) mod 7"

text \<open>
  \<^verbatim>\<open>today + datetime.timedelta(days=n)\<close>: the sum raises \<^verbatim>\<open>OverflowError\<close> when it
  leaves the range of \<^verbatim>\<open>datetime\<close>, whose last day (9999-12-31) has ordinal 3652059.
\<close>

definition MAXORDINAL :: int where
  "MAXORDINAL = 3652059"

definition add_days :: "date \<Rightarrow> int \<Rightarrow> exn + date" where
  "add_days d n = (if 0 < d + n \<and> d + n \<le> MAXORDINAL then Inr (d + n) else Inl OverflowError)"

definition date_options :: "date \<Rightarrow> (string \<times> int) list" where
  "date_options today =
     [(''today'', 0), (''tomorrow'', 1), (''yesterday'', -1), (''monday'', 0 - weekday today),
      (''tuesday'', 1 - weekday today), (''wednesday'', 2 - weekday today),
      (''thursday'', 3 - weekday today), (''friday'', 4 - weekday today),
      (''saturday'', 5 - weekday today), (''sunday'', 6 - weekday today)]"

text \<open>
  The list comprehension of \<^verbatim>\<open>get_date\<close>: the options are visited in order, and the
  first sum that overflows ends the comprehension with its exception.
\<close>

fun date_candidates :: "date \<Rightarrow> string \<Rightarrow> (string \<times> int) list \<Rightarrow> exn + date list" where
  "date_candidates today text [] = Inr []"
| "date_candidates today text ((day, date_diff) # opts) =
     (if str_in day text then
        (case add_days today date_diff of
           Inl e \<Rightarrow> Inl e
         | Inr d \<Rightarrow>
             (case date_candidates today text opts of
                Inl e \<Rightarrow> Inl e
              | Inr ds \<Rightarrow> Inr (d # ds)))
      else date_candidates today text opts)"

definition get_date :: "date \<Rightarrow> string \<Rightarrow> exn + date list" where
  "get_date today text =
     (case date_candidates today text (date_options today) of
        Inl e \<Rightarrow> Inl e
      | Inr ds \<Rightarrow>
          (let dates = sort ds
           in Inr (if length dates > 0 then dates else [today])))"

section \<open>The menu repository\<close>

text \<open>
  Python dictionaries keep their keys in insertion order. A dictionary is an association
  list with distinct keys: \<open>map_of d k\<close> reads \<^verbatim>\<open>d[k]\<close>, \<open>map fst d\<close> is \<^verbatim>\<open>d.keys()\<close>, and
  \<open>AList.update k v d\<close> is \<^verbatim>\<open>d[k] = v\<close>: it replaces the value of a key that is
  there, in place, and appends a new key at the end.

  A row of the table \<^verbatim>\<open>menu\<close> as the \<^verbatim>\<open>SELECT\<close> returns it is
  \<open>(type, item, price_student, price_staff)\<close>. The prices are numbers of a type \<open>'p\<close>
  that the model leaves open.
\<close>

type_synonym 'p row = "string \<times> string \<times> 'p \<times> 'p"
type_synonym 'p menu_items = "(string \<times> (string \<times> 'p \<times> 'p)) list"
type_synonym 'p menu = "((date \<times> string) \<times> 'p menu_items) list"

text \<open>
  What the plugin does to the outside is kept in a \<open>world\<close>, passed through every
  operation and returned updated:
  \<^item> \<open>table\<close>: the content of \<^verbatim>\<open>menu.db\<close>, as what the \<^verbatim>\<open>SELECT\<close> for a date and a campus
    returns (its rows, or the exception it raises);
  \<^item> \<open>connect_exn\<close>: the exception \<^verbatim>\<open>sqlite3.connect\<close> raises, if it does;
  \<^item> \<open>db_log\<close>: the calls made on the sqlite3 interface so far, oldest first;
  \<^item> \<open>posted\<close>: the calls made on the Slack client so far;
  \<^item> \<open>logged\<close>: the records written with \<^verbatim>\<open>logging\<close>.
\<close>

datatype db_event = Connect | Execute date string | Close

datatype log_record = LogDebug string | LogError string | LogException string exn

record attachment =
  att_title :: string
  att_color :: string
  att_text :: string

record api_call =
  call_method :: string
  call_channel :: string
  call_text :: string
  call_attachments :: "attachment list option"
  call_username :: string
  call_icon_emoji :: string

record 'p world =
  table :: "date \<Rightarrow> string \<Rightarrow> exn + 'p row list"
  connect_exn :: "exn option"
  db_log :: "db_event list"
  posted :: "api_call list"
  logged :: "log_record list"

text \<open>\<^verbatim>\<open>conn = sqlite3.connect('menu.db'); c = conn.cursor()\<close>\<close>

definition sqlite3_connect :: "'p world \<Rightarrow> (exn + unit) \<times> 'p world" where
  "sqlite3_connect w =
     (case connect_exn w of
        Some e \<Rightarrow> (Inl e, w)
      | None \<Rightarrow> (Inr (), w\<lparr>db_log := db_log w @ [Connect]\<rparr>))"

text \<open>\<^verbatim>\<open>c.execute('SELECT ... WHERE date = ? AND campus = ?', (date, campus)); c.fetchall()\<close>\<close>

definition execute_fetchall :: "'p world \<Rightarrow> date \<Rightarrow> string \<Rightarrow> (exn + 'p row list) \<times> 'p world" where
  "execute_fetchall w d campus = (table w d campus, w\<lparr>db_log := db_log w @ [Execute d campus]\<rparr>)"

text \<open>
  \<^verbatim>\<open>menu[(date, campus)][menu_type] = (menu_item, price_student, price_staff)\<close> on the
  \<^verbatim>\<open>defaultdict(dict)\<close>: reading a missing key creates it with an empty dictionary.
\<close>

definition setitem2 ::
  "(date \<times> string) \<Rightarrow> string \<Rightarrow> (string \<times> 'p \<times> 'p) \<Rightarrow> 'p menu \<Rightarrow> 'p menu" where
  "setitem2 key menu_type v menu =
     AList.update key
       (AList.update menu_type v (case map_of menu key of None \<Rightarrow> [] | Some d \<Rightarrow> d)) menu"

text \<open>The inner loop of \<^verbatim>\<open>get_menu\<close>, over the rows fetched for one key.\<close>

fun store_rows :: "(date \<times> string) \<Rightarrow> 'p row list \<Rightarrow> 'p menu \<Rightarrow> 'p menu" where
  "store_rows key [] menu = menu"
| "store_rows key ((menu_type, menu_item, price_student, price_staff) # rows) menu =
     store_rows key rows (setitem2 key menu_type (menu_item, price_student, price_staff) menu)"

text \<open>
  The outer loop, over \<^verbatim>\<open>itertools.product(dates, campuses)\<close>. A query that raises ends
  the loop: the exception leaves \<^verbatim>\<open>get_menu\<close>, which has no handler and no
  \<^verbatim>\<open>finally\<close>.
\<close>

fun get_menu_loop ::
  "'p world \<Rightarrow> (date \<times> string) list \<Rightarrow> 'p menu \<Rightarrow> (exn + 'p menu) \<times> 'p world" where
  "get_menu_loop w [] menu = (Inr menu, w)"
| "get_menu_loop w ((d, campus) # pairs) menu =
     (case execute_fetchall w d campus of
        (Inl e, w') \<Rightarrow> (Inl e, w')
      | (Inr rows, w') \<Rightarrow> get_menu_loop w' pairs (store_rows (d, campus) rows menu))"

definition get_menu :: "'p world \<Rightarrow> string list \<Rightarrow> date list \<Rightarrow> (exn + 'p menu) \<times> 'p world" where
  "get_menu w campuses dates =
     (case sqlite3_connect w of
        (Inl e, w') \<Rightarrow> (Inl e, w')
      | (Inr _, w') \<Rightarrow> get_menu_loop w' (List.product dates campuses) [])"

section \<open>The environment\<close>

text \<open>
  The library functions whose result depends on the locale, on Unicode tables or on
  floating point are parameters of the model, together with the plugin's collaborators:
  \<^item> \<open>clock_today\<close>: the day \<^verbatim>\<open>datetime.datetime.today()\<close> reads from the clock;
  \<^item> \<open>str_lower\<close>, \<open>str_upper\<close>: \<^verbatim>\<open>str.lower\<close>, \<^verbatim>\<open>str.upper\<close>;
  \<^item> \<open>strftime\<close>: \<^verbatim>\<open>d.strftime('%A %d %B')\<close>;
  \<^item> \<open>fmt2f\<close>: a price formatted by \<^verbatim>\<open>{:.2f}\<close>;
  \<^item> \<open>api_reply\<close>: what the \<open>n\<close>-th call of \<^verbatim>\<open>slack_client.api_call\<close> does: it raises, or
    returns a response;
  \<^item> \<open>update_run\<close>: the refresh job \<^verbatim>\<open>KomidaUpdate.run\<close> of \<^verbatim>\<open>komida_parser\<close>, which may
    change the world in any way and may raise;
  \<^item> \<open>random_choice\<close>: the index \<^verbatim>\<open>random.choice\<close> draws.
\<close>

record response =
  r_ok :: "bool option"
  r_error :: "string option"

record 'p env =
  clock_today :: date
  str_lower :: "string \<Rightarrow> string"
  str_upper :: "string \<Rightarrow> string"
  strftime :: "date \<Rightarrow> string"
  fmt2f :: "'p \<Rightarrow> string"
  api_reply :: "nat \<Rightarrow> exn + response"
  update_run :: "'p world \<Rightarrow> exn option \<times> 'p world"
  random_choice :: nat

section \<open>The menu formatter\<close>

text \<open>The euro sign, in UTF-8, and the line feed.\<close>

definition euro :: string where
  "euro = [CHR 0xE2, CHR 0x82, CHR 0xAC]"

definition newline :: string where
  "newline = [CHR 0x0A]"

text \<open>\<^verbatim>\<open>'<icon> {} (\<euro>{:.2f} / \<euro>{:.2f})'.format(*entry)\<close>\<close>

definition menu_line :: "('p \<Rightarrow> string) \<Rightarrow> string \<Rightarrow> (string \<times> 'p \<times> 'p) \<Rightarrow> string" where
  "menu_line fmt icon entry =
     (case entry of (menu_item, price_student, price_staff) \<Rightarrow>
        icon @ '' '' @ menu_item @ '' ('' @ euro @ fmt price_student @ '' / '' @ euro @
        fmt price_staff @ '')'')"

text \<open>The list \<^verbatim>\<open>message\<close> that \<^verbatim>\<open>format_menu\<close> builds before joining it.\<close>

definition message :: "('p \<Rightarrow> string) \<Rightarrow> 'p menu_items \<Rightarrow> string list" where
  "message fmt menu =
     (case map_of menu ''soup'' of
        Some entry \<Rightarrow> [menu_line fmt '':tea:'' entry] | None \<Rightarrow> []) @
     (case map_of menu ''vegetarian'' of
        Some entry \<Rightarrow> [menu_line fmt '':tomato:'' entry] | None \<Rightarrow> []) @
     (case map_of menu ''meat'' of
        Some entry \<Rightarrow> [menu_line fmt '':poultry_leg:'' entry] | None \<Rightarrow> []) @
     map (\<lambda>key. menu_line fmt '':meat_on_bone:'' (the (map_of menu key)))
       (filter (\<lambda>key. str_in ''grill'' key) (map fst menu)) @
     map (\<lambda>key. menu_line fmt '':spaghetti:'' (the (map_of menu key)))
       (filter (\<lambda>key. str_in ''pasta'' key) (map fst menu))"

definition format_menu :: "('p \<Rightarrow> string) \<Rightarrow> 'p menu_items \<Rightarrow> string" where
  "format_menu fmt menu = join newline (message fmt menu)"

definition campus_colors :: "(string \<times> string) list" where
  "campus_colors =
     [(''cde'', ''good''), (''cgb'', ''warning''), (''cmi'', ''danger''), (''cst'', ''#439FE0'')]"

text \<open>\<^verbatim>\<open>campus_colors[campus]\<close> raises \<^verbatim>\<open>KeyError\<close> for a campus that has no colour.\<close>

fun create_attachments :: "'p env \<Rightarrow> 'p menu \<Rightarrow> exn + attachment list" where
  "create_attachments env [] = Inr []"
| "create_attachments env (((d, campus), menu_items) # menu) =
     (case map_of campus_colors campus of
        None \<Rightarrow> Inl KeyError
      | Some colour \<Rightarrow>
          (case create_attachments env menu of
             Inl e \<Rightarrow> Inl e
           | Inr attachments \<Rightarrow>
               Inr (\<lparr>att_title = ''Menu komida '' @ str_upper env campus @ '' on '' @ strftime env d,
                     att_color = colour,
                     att_text = format_menu (fmt2f env) menu_items\<rparr> # attachments)))"

section \<open>The bot controller\<close>

text \<open>
  An inbound Slack message is a dictionary; the plugin reads four of its keys, each of
  which may be missing.
\<close>

record slack_message =
  msg_username :: "string option"
  msg_subtype :: "string option"
  msg_text :: "string option"
  msg_channel :: "string option"

text \<open>
  \<^verbatim>\<open>re.search('^l+u+n+c+h+!+$', text) is not None\<close>. Each letter of the pattern differs
  from the next, so taking each run as long as it goes loses no match (\<open>eat\<close> takes one
  run, \<open>eat_runs\<close> one run per letter of its first argument); \<^verbatim>\<open>$\<close> matches at the end
  of the text and before a line feed that ends it.
\<close>

definition eat :: "char \<Rightarrow> string \<Rightarrow> string option" where
  "eat c s = (case s of [] \<Rightarrow> None | x # xs \<Rightarrow> if x = c then Some (dropWhile (\<lambda>y. y = c) xs) else None)"

fun eat_runs :: "string \<Rightarrow> string \<Rightarrow> string option" where
  "eat_runs [] s = Some s"
| "eat_runs (c # cs) s = (case eat c s of None \<Rightarrow> None | Some s' \<Rightarrow> eat_runs cs s')"

definition lunch_re :: "string \<Rightarrow> bool" where
  "lunch_re text =
     (case eat_runs ''lunch!'' text of
        None \<Rightarrow> False
      | Some rest \<Rightarrow> rest = [] \<or> rest = newline)"

text \<open>
  \<^verbatim>\<open>self.slack_client.api_call('chat.postMessage', channel=..., text=..., username='komidabot',
  icon_emoji=':fork_and_knife:')\<close>, with or without attachments. The call is recorded,
  and its outcome is the one the environment gives to the call of that number.
\<close>

definition post_message :: "string \<Rightarrow> string \<Rightarrow> attachment list option \<Rightarrow> api_call" where
  "post_message channel text attachments =
     \<lparr>call_method = ''chat.postMessage'', call_channel = channel, call_text = text,
      call_attachments = attachments, call_username = ''komidabot'',
      call_icon_emoji = '':fork_and_knife:''\<rparr>"

definition slack_api_call :: "'p env \<Rightarrow> api_call \<Rightarrow> 'p world \<Rightarrow> (exn + response) \<times> 'p world" where
  "slack_api_call env call w = (api_reply env (length (posted w)), w\<lparr>posted := posted w @ [call]\<rparr>)"

definition logging :: "log_record \<Rightarrow> 'p world \<Rightarrow> 'p world" where
  "logging r w = w\<lparr>logged := logged w @ [r]\<rparr>"

text \<open>\<^verbatim>\<open>KomidaPlugin.process_error\<close>. \<^verbatim>\<open>response['ok']\<close> raises \<^verbatim>\<open>KeyError\<close> on a response without that key.\<close>

definition process_error :: "'p env \<Rightarrow> string \<Rightarrow> string \<Rightarrow> 'p world \<Rightarrow> (exn + unit) \<times> 'p world" where
  "process_error env channel reason w =
     (case slack_api_call env
             (post_message channel
                (''I'm sorry, I can't tell you the menu. Error status: '' @ reason) None)
             (logging (LogError (''Failed to post to Slack: '' @ reason)) w) of
        (Inl e, w') \<Rightarrow> (Inl e, w')
      | (Inr response, w') \<Rightarrow>
          (case r_ok response of
             None \<Rightarrow> (Inl KeyError, w')
           | Some ok \<Rightarrow>
               if \<not> ok then
                 (case r_error response of
                    None \<Rightarrow> (Inl KeyError, w')
                  | Some err \<Rightarrow> (Inr (), logging (LogError (''Failed to post to Slack: '' @ err)) w'))
               else (Inr (), w')))"

text \<open>
  \<^verbatim>\<open>if not response['ok']: self.process_error(data['channel'], response['error'])\<close>,
  which the plugin runs after the interim notice and after the reply.
\<close>

definition check_response ::
  "'p env \<Rightarrow> string \<Rightarrow> response \<Rightarrow> 'p world \<Rightarrow> (exn + unit) \<times> 'p world" where
  "check_response env channel response w =
     (case r_ok response of
        None \<Rightarrow> (Inl KeyError, w)
      | Some ok \<Rightarrow>
          if \<not> ok then
            (case r_error response of
               None \<Rightarrow> (Inl KeyError, w)
             | Some reason \<Rightarrow> process_error env channel reason w)
          else (Inr (), w))"

text \<open>
  The body of the \<^verbatim>\<open>try\<close> statement: the interim notice, the refresh and the second
  lookup. It ends at the first exception.
\<close>

definition try_update ::
  "'p env \<Rightarrow> string \<Rightarrow> string list \<Rightarrow> date list \<Rightarrow> 'p world \<Rightarrow> (exn + 'p menu) \<times> 'p world" where
  "try_update env channel campuses dates w =
     (case slack_api_call env
             (post_message channel
                (''I don't have the menu for '' @ str_upper env (join '', '' campuses) @ '' on '' @
                 join '', '' (map (strftime env) dates) @
                 ''. Let me see if I can find it online...'') None)
             (logging (LogDebug ''No menu found, updating...'') w) of
        (Inl e, w1) \<Rightarrow> (Inl e, w1)
      | (Inr response, w1) \<Rightarrow>
          (case check_response env channel response w1 of
             (Inl e, w2) \<Rightarrow> (Inl e, w2)
           | (Inr _, w2) \<Rightarrow>
               (case update_run env w2 of
                  (Some e, w3) \<Rightarrow> (Inl e, w3)
                | (None, w3) \<Rightarrow> get_menu w3 campuses dates)))"

text \<open>
  The \<^verbatim>\<open>try\<close> statement with its handler \<^verbatim>\<open>except Exception as e\<close>, which logs an
  instance of \<^verbatim>\<open>Exception\<close> and goes on; any other exception passes the handler and
  leaves \<^verbatim>\<open>process_message\<close>. \<^verbatim>\<open>menus\<close> is assigned only when the second lookup returns.
\<close>

definition force_update ::
  "'p env \<Rightarrow> string \<Rightarrow> string list \<Rightarrow> date list \<Rightarrow> 'p menu \<Rightarrow> 'p world \<Rightarrow>
     (exn + 'p menu) \<times> 'p world" where
  "force_update env channel campuses dates menus w =
     (case try_update env channel campuses dates w of
        (Inl e, w') \<Rightarrow>
          if is_Exception e
          then (Inr menus, logging (LogException ''Problem while updating the menu: '' e) w')
          else (Inl e, w')
      | (Inr menus', w') \<Rightarrow> (Inr menus', w'))"

definition fail_gifs :: "string list" where
  "fail_gifs =
     [''https://giphy.com/gifs/monkey-laptop-baboon-xTiTnJ3BooiDs8dL7W'',
      ''https://giphy.com/gifs/office-space-jBBRs81dGWHIY'',
      ''https://giphy.com/gifs/computer-Zw133sEVc0WXK'',
      ''https://giphy.com/gifs/computer-D8kdCAJIoSQ6I'',
      ''https://giphy.com/gifs/richard-ayoade-it-crowd-maurice-moss-dbtDDSvWErdf2'']"

text \<open>
  The reply: the menu, or the message that none was found, and the check of the
  response. Nothing here is inside a \<^verbatim>\<open>try\<close>.
\<close>

definition reply :: "'p env \<Rightarrow> string \<Rightarrow> 'p menu \<Rightarrow> 'p world \<Rightarrow> (exn + unit) \<times> 'p world" where
  "reply env channel menus w =
     (case (if length menus > 0 then
              (case create_attachments env menus of
                 Inl e \<Rightarrow> (Inl e, w)
               | Inr attachments \<Rightarrow>
                   slack_api_call env (post_message channel ''*LUNCH!*'' (Some attachments)) w)
            else
              slack_api_call env
                (post_message channel
                   (''_COMPUTER SAYS NO._ I'm sorry, no menu has been found.'' @ newline @
                    fail_gifs ! (random_choice env mod length fail_gifs)) None) w) of
        (Inl e, w') \<Rightarrow> (Inl e, w')
      | (Inr response, w') \<Rightarrow> check_response env channel response w')"

text \<open>
  \<^verbatim>\<open>KomidaPlugin.process_message\<close>. \<^verbatim>\<open>data.get('channel')\<close> is \<^verbatim>\<open>None\<close> for a message
  without that key, and \<^verbatim>\<open>None.startswith\<close> raises \<^verbatim>\<open>AttributeError\<close>. The first
  lookup is outside the \<^verbatim>\<open>try\<close> statement.
\<close>

definition process_message ::
  "'p env \<Rightarrow> 'p world \<Rightarrow> slack_message \<Rightarrow> (exn + unit) \<times> 'p world" where
  "process_message env w data =
     (if msg_username data = Some ''komidabot'' \<or>
         (case msg_subtype data of None \<Rightarrow> False | Some subtype \<Rightarrow> str_in ''bot'' subtype)
      then (Inr (), w)
      else
        (case msg_text data of
           None \<Rightarrow> (Inr (), w)
         | Some t \<Rightarrow>
             (let text = str_lower env t in
              case msg_channel data of
                None \<Rightarrow> (Inl AttributeError, w)
              | Some channel \<Rightarrow>
                  if startswith channel ''C'' \<and> \<not> (str_in ''komidabot'' text \<or> lunch_re text)
                  then (Inr (), w)
                  else
                    (let campuses = get_campus text in
                     case get_date (clock_today env) text of
                       Inl e \<Rightarrow> (Inl e, w)
                     | Inr dates \<Rightarrow>
                         (case get_menu w campuses dates of
                            (Inl e, w1) \<Rightarrow> (Inl e, w1)
                          | (Inr menus, w1) \<Rightarrow>
                              (case (if length menus = 0
                                     then force_update env channel campuses dates menus w1
                                     else (Inr menus, w1)) of
                                 (Inl e, w2) \<Rightarrow> (Inl e, w2)
                               | (Inr menus', w2) \<Rightarrow> reply env channel menus' w2))))))"

section \<open>Terms of the specification\<close>

text \<open>
  The weekday names in the order of the index that \<^verbatim>\<open>weekday()\<close> gives them; the
  specification calls the position of a name its weekday index.
\<close>

definition weekday_names :: "string list" where
  "weekday_names =
     [''monday'', ''tuesday'', ''wednesday'', ''thursday'', ''friday'', ''saturday'', ''sunday'']"

text \<open>
  The categories the formatter has a rule for, and the lines of one rule: one line for
  each category of the entry that the rule matches, in the entry's own order.
\<close>

definition recognised :: "string \<Rightarrow> bool" where
  "recognised key \<longleftrightarrow>
     key = ''soup'' \<or> key = ''vegetarian'' \<or> key = ''meat'' \<or> str_in ''grill'' key \<or>
     str_in ''pasta'' key"

definition group_lines ::
  "('p \<Rightarrow> string) \<Rightarrow> string \<Rightarrow> (string \<Rightarrow> bool) \<Rightarrow> 'p menu_items \<Rightarrow> string list" where
  "group_lines fmt icon rule menu =
     map (\<lambda>(key, entry). menu_line fmt icon entry) (filter (\<lambda>(key, entry). rule key) menu)"

section \<open>Sample data\<close>

text \<open>
  A store with two rows for campus Middelheim on Wednesday 4 November 2026 (ordinal
  739924) and none for any other key, and the same store when every query fails. Here a
  price is the text that \<^verbatim>\<open>{:.2f}\<close> prints for it.
\<close>

definition example_table :: "date \<Rightarrow> string \<Rightarrow> exn + string row list" where
  "example_table d campus =
     (if d = 739924 \<and> campus = ''cmi''
      then Inr [(''soup'', ''tomato soup'', ''3.00'', ''4.00''),
                (''grill pasta'', ''grilled chicken penne'', ''5.00'', ''6.50'')]
      else Inr [])"

definition example_world :: "string world" where
  "example_world =
     \<lparr>table = example_table, connect_exn = None, db_log = [], posted = [], logged = []\<rparr>"

definition locked_world :: "string world" where
  "locked_world = example_world\<lparr>table := \<lambda>d campus. Inl (Error ''database is locked'')\<rparr>"

text \<open>
  An environment for that store on Wednesday 4 November 2026: the letters of ASCII change
  case, every call of the Slack client is acknowledged, and the refresh job fails. The
  message asks for campus Stad on a public channel.
\<close>

definition ascii_upper :: "string \<Rightarrow> string" where
  "ascii_upper s =
     map (\<lambda>c. case map_of (zip ''abcdefghijklmnopqrstuvwxyz'' ''ABCDEFGHIJKLMNOPQRSTUVWXYZ'') c of
                 Some u \<Rightarrow> u | None \<Rightarrow> c) s"

definition ascii_lower :: "string \<Rightarrow> string" where
  "ascii_lower s =
     map (\<lambda>c. case map_of (zip ''ABCDEFGHIJKLMNOPQRSTUVWXYZ'' ''abcdefghijklmnopqrstuvwxyz'') c of
                 Some l \<Rightarrow> l | None \<Rightarrow> c) s"

definition example_strftime :: "date \<Rightarrow> string" where
  "example_strftime d =
     (if d = 739924 then ''Wednesday 04 November''
      else if d = 739922 then ''Monday 02 November''
      else ''another day'')"

definition example_env :: "string env" where
  "example_env =
     \<lparr>clock_today = 739924, str_lower = ascii_lower, str_upper = ascii_upper,
      strftime = example_strftime, fmt2f = (\<lambda>p. p),
      api_reply = (\<lambda>n. Inr \<lparr>r_ok = Some True, r_error = None\<rparr>),
      update_run = (\<lambda>w. (Some (Error ''connection refused''), w)),
      random_choice = 2\<rparr>"

text \<open>The same environment when the refresh job is interrupted from the keyboard.\<close>

definition interrupted_env :: "string env" where
  "interrupted_env = example_env\<lparr>update_run := \<lambda>w. (Some KeyboardInterrupt, w)\<rparr>"

definition example_message :: slack_message where
  "example_message =
     \<lparr>msg_username = Some ''alice'', msg_subtype = None, msg_text = Some ''Komidabot CST'',
      msg_channel = Some ''C024BE91L''\<rparr>"

section \<open>Properties of the text classifier\<close>

subsection \<open>Substrings\<close>

lemma startswith_iff: "startswith s p \<longleftrightarrow> (\<exists>q. s = p @ q)"
  by (induction s p rule: startswith.induct) auto

lemma str_in_iff: "str_in x s \<longleftrightarrow> (\<exists>p q. s = p @ x @ q)"
proof (induction s)
  case Nil
  then show ?case by auto
next
  case (Cons c s)
  show ?case
  proof
    assume "str_in x (c # s)"
    then consider "startswith (c # s) x" | "str_in x s" by auto
    then show "\<exists>p q. c # s = p @ x @ q"
    proof cases
      case 1
      then obtain q where "c # s = x @ q" by (auto simp: startswith_iff)
      then have "c # s = [] @ x @ q" by simp
      then show ?thesis by blast
    next
      case 2
      then obtain p q where "s = p @ x @ q" using Cons.IH by blast
      then have "c # s = (c # p) @ x @ q" by simp
      then show ?thesis by blast
    qed
  next
    assume "\<exists>p q. c # s = p @ x @ q"
    then obtain p q where pq: "c # s = p @ x @ q" by blast
    show "str_in x (c # s)"
    proof (cases p)
      case Nil
      with pq have "\<exists>q. c # s = x @ q" by auto
      then have "startswith (c # s) x" by (simp only: startswith_iff)
      then show ?thesis by simp
    next
      case (Cons a p')
      with pq have "s = p' @ x @ q" by simp
      then show ?thesis using Cons.IH by auto
    qed
  qed
qed

subsection \<open>Campuses\<close>

text \<open>
  Claim C8. A text in which no campus alias occurs gives exactly \<^verbatim>\<open>['cmi']\<close>; for every
  text, \<^verbatim>\<open>get_campus\<close> returns at least one campus code, and the codes are sorted
  lexicographically.
\<close>

theorem get_campus_default:
  "((\<forall>c_texts \<in> set (map snd campus_options). \<forall>c_text \<in> set c_texts. \<not> str_in c_text text)
      \<longrightarrow> get_campus text = [''cmi''])
   \<and> get_campus text \<noteq> [] \<and> sorted (get_campus text)"
proof (intro conjI impI)
  assume none: "\<forall>c_texts \<in> set (map snd campus_options). \<forall>c_text \<in> set c_texts. \<not> str_in c_text text"
  have "filter (\<lambda>(c_code, c_texts). list_ex (\<lambda>c_text. str_in c_text text) c_texts) campus_options = []"
    using none by (auto simp: filter_empty_conv list_ex_iff)
  then show "get_campus text = [''cmi'']"
    by (simp add: get_campus_def)
next
  show "get_campus text \<noteq> []"
    by (simp add: get_campus_def Let_def)
next
  show "sorted (get_campus text)"
    by (simp add: get_campus_def Let_def)
qed

text \<open>The text of a request that names no campus.\<close>

theorem get_campus_default_witness:
  "get_campus ''komidabot, what is for lunch?'' = [''cmi'']
   \<and> get_campus ''komidabot, what is for lunch?'' \<noteq> []
   \<and> sorted (get_campus ''komidabot, what is for lunch?'')"
  using get_campus_default [of "''komidabot, what is for lunch?''"]
  by (simp add: campus_options_def)

text \<open>
  Claim C3, as the specification states it: the campus codes of the classifier and of
  the formatter are five, four campuses and a default. They are four: the default
  \<^verbatim>\<open>'cmi'\<close> is one of the four campuses.
\<close>

theorem campus_codes_not_five:
  "card (set (map fst campus_options) \<union> set (get_campus [])) \<noteq> 5
   \<and> card (set (map fst campus_colors)) \<noteq> 5"
  by (simp add: campus_options_def campus_colors_def get_campus_def card_insert_if)

text \<open>
  Claim C3, amended. The campus codes are closed and fixed at four entries, \<^verbatim>\<open>cde\<close>,
  \<^verbatim>\<open>cgb\<close>, \<^verbatim>\<open>cmi\<close> and \<^verbatim>\<open>cst\<close>: the classifier's table and the formatter's colour table
  have exactly these keys, and every code \<^verbatim>\<open>get_campus\<close> returns, the default included,
  is one of them.
\<close>

theorem campus_codes_four:
  "set (get_campus text) \<subseteq> {''cde'', ''cgb'', ''cmi'', ''cst''}
   \<and> map fst campus_options = [''cde'', ''cgb'', ''cmi'', ''cst'']
   \<and> map fst campus_colors = [''cde'', ''cgb'', ''cmi'', ''cst'']
   \<and> card {''cde'', ''cgb'', ''cmi'', ''cst''} = 4"
  by (auto simp: get_campus_def campus_options_def campus_colors_def Let_def card_insert_if)

subsection \<open>Dates\<close>

lemma date_candidates_Inr:
  "date_candidates today text opts = Inr ds \<Longrightarrow>
     ds = map (\<lambda>(day, date_diff). today + date_diff)
            (filter (\<lambda>(day, date_diff). str_in day text) opts)"
  by (induction opts arbitrary: ds) (auto simp: add_days_def split: if_splits sum.splits)

lemma date_candidates_total:
  "\<forall>(day, date_diff) \<in> set opts. 0 < today + date_diff \<and> today + date_diff \<le> MAXORDINAL \<Longrightarrow>
     \<exists>ds. date_candidates today text opts = Inr ds"
  by (induction opts) (auto simp: add_days_def split: if_splits sum.splits)

lemma weekday_range: "0 \<le> weekday d \<and> weekday d < 7"
  by (simp add: weekday_def)

lemma date_options_range:
  "(day, date_diff) \<in> set (date_options today) \<Longrightarrow> - 6 \<le> date_diff \<and> date_diff \<le> 6"
  using weekday_range [of today] by (auto simp: date_options_def)

text \<open>No sum overflows when today is a week or more away from both ends of the calendar.\<close>

lemma get_date_total:
  assumes "6 < today" "today + 6 \<le> MAXORDINAL"
  shows "\<exists>ds. get_date today text = Inr ds"
proof -
  have "\<forall>(day, date_diff) \<in> set (date_options today).
          0 < today + date_diff \<and> today + date_diff \<le> MAXORDINAL"
    using assms date_options_range [of _ _ today] by fastforce
  from date_candidates_total [OF this, of "text"] show ?thesis
    by (auto simp: get_date_def Let_def)
qed

lemma sort_Nil_iff: "sort xs = [] \<longleftrightarrow> xs = []"
  using length_sort [of "\<lambda>x. x" xs] by (metis length_0_conv)

lemma get_date_Inr:
  assumes "get_date today text = Inr ds"
  shows "ds = (let found = filter (\<lambda>(day, date_diff). str_in day text) (date_options today)
               in if found = [] then [today]
                  else sort (map (\<lambda>(day, date_diff). today + date_diff) found))"
  using assms date_candidates_Inr [of today "text" "date_options today"]
  by (auto simp: get_date_def Let_def sort_Nil_iff split: sum.splits if_splits)

text \<open>
  Claim C1, as the specification states it: the dates are sorted and free of duplicates.
  On Monday 2 November 2026 (ordinal 739922) the text \<^verbatim>\<open>today monday\<close> matches two
  keywords, both of offset 0, and \<^verbatim>\<open>get_date\<close> returns that day twice.
\<close>

theorem get_date_duplicate:
  "get_date 739922 ''today monday'' = Inr [739922, 739922]
   \<and> \<not> distinct [739922 :: date, 739922]"
  by (simp add: get_date_def date_options_def weekday_def add_days_def MAXORDINAL_def)

text \<open>
  Claim C1, amended. \<^verbatim>\<open>get_date\<close> returns whenever today is a week or more away from
  both ends of the calendar. The list it returns is sorted ascending and not empty: it
  is today alone when no keyword occurs in the text, and otherwise the sorted list of
  the dates of the keywords that occur, one date for each keyword. Nothing removes a
  date that two keywords give: \<^verbatim>\<open>yesterday tomorrow\<close> gives the day before and the day after
  today, in that order, and \<^verbatim>\<open>today monday\<close> on a Monday gives today twice.
\<close>

theorem get_date_sorted:
  "(6 < today \<and> today + 6 \<le> MAXORDINAL \<longrightarrow> (\<exists>ds. get_date today text = Inr ds))
   \<and> (\<forall>ds. get_date today text = Inr ds \<longrightarrow>
         sorted ds \<and> ds \<noteq> [] \<and>
         length ds =
           max 1 (length (filter (\<lambda>(day, date_diff). str_in day text) (date_options today))) \<and>
         (filter (\<lambda>(day, date_diff). str_in day text) (date_options today) = [] \<longrightarrow>
            ds = [today]) \<and>
         (filter (\<lambda>(day, date_diff). str_in day text) (date_options today) \<noteq> [] \<longrightarrow>
            ds = sort (map (\<lambda>(day, date_diff). today + date_diff)
                   (filter (\<lambda>(day, date_diff). str_in day text) (date_options today)))))
   \<and> (1 < today \<and> today < MAXORDINAL \<longrightarrow>
         get_date today ''yesterday tomorrow'' = Inr [today - 1, today + 1])
   \<and> (weekday today = 0 \<and> 0 < today \<and> today \<le> MAXORDINAL \<longrightarrow>
         get_date today ''today monday'' = Inr [today, today])"
proof (intro conjI impI allI)
  assume "6 < today \<and> today + 6 \<le> MAXORDINAL"
  then show "\<exists>ds. get_date today text = Inr ds"
    using get_date_total by blast
next
  fix ds
  assume "get_date today text = Inr ds"
  note ds = get_date_Inr [OF this]
  show "sorted ds" using ds by (simp add: Let_def)
  show "ds \<noteq> []" using ds by (simp add: Let_def sort_Nil_iff)
  show "length ds =
          max 1 (length (filter (\<lambda>(day, date_diff). str_in day text) (date_options today)))"
    using ds by (auto simp: Let_def Suc_le_eq max_def)
  show "ds = [today]"
    if "filter (\<lambda>(day, date_diff). str_in day text) (date_options today) = []"
    using ds that by (simp add: Let_def)
  show "ds = sort (map (\<lambda>(day, date_diff). today + date_diff)
                (filter (\<lambda>(day, date_diff). str_in day text) (date_options today)))"
    if "filter (\<lambda>(day, date_diff). str_in day text) (date_options today) \<noteq> []"
    using ds that by (simp add: Let_def)
next
  assume "1 < today \<and> today < MAXORDINAL"
  then show "get_date today ''yesterday tomorrow'' = Inr [today - 1, today + 1]"
    by (simp add: get_date_def date_options_def add_days_def)
next
  assume "weekday today = 0 \<and> 0 < today \<and> today \<le> MAXORDINAL"
  then show "get_date today ''today monday'' = Inr [today, today]"
    by (simp add: get_date_def date_options_def add_days_def)
qed

text \<open>
  Monday 2 November 2026: a text without keyword, one with two keywords of different
  dates, and one with two keywords of the same date.
\<close>

theorem get_date_sorted_witness:
  "get_date 739922 ''lunch!'' = Inr [739922]
   \<and> get_date 739922 ''yesterday tomorrow'' = Inr [739922 - 1, 739922 + 1]
   \<and> get_date 739922 ''today monday'' = Inr [739922, 739922]"
proof -
  have range: "(6 :: int) < 739922 \<and> 739922 + 6 \<le> MAXORDINAL"
    by (simp add: MAXORDINAL_def)
  have none: "filter (\<lambda>(day, date_diff). str_in day ''lunch!'') (date_options 739922) = []"
    by (simp add: date_options_def)
  from get_date_sorted [of 739922 "''lunch!''", THEN conjunct1] range
  obtain ds where ds: "get_date 739922 ''lunch!'' = Inr ds"
    by blast
  from get_date_sorted [of 739922 "''lunch!''", THEN conjunct2, THEN conjunct1] ds none
  have "ds = [739922]"
    by blast
  with ds have 1: "get_date 739922 ''lunch!'' = Inr [739922]"
    by simp
  have "(1 :: int) < 739922 \<and> 739922 < MAXORDINAL"
    by (simp add: MAXORDINAL_def)
  with get_date_sorted [of 739922, THEN conjunct2, THEN conjunct2, THEN conjunct1]
  have 2: "get_date 739922 ''yesterday tomorrow'' = Inr [739922 - 1, 739922 + 1]"
    by (rule mp)
  have "weekday 739922 = 0 \<and> (0 :: int) < 739922 \<and> 739922 \<le> MAXORDINAL"
    by (simp add: weekday_def MAXORDINAL_def)
  with get_date_sorted [of 739922, THEN conjunct2, THEN conjunct2, THEN conjunct2]
  have 3: "get_date 739922 ''today monday'' = Inr [739922, 739922]"
    by (rule mp)
  from 1 2 3 show ?thesis
    by (intro conjI)
qed

lemma weekday_option:
  assumes "i < 7"
  shows "(weekday_names ! i, int i - weekday today) \<in> set (date_options today)"
proof -
  from assms consider "i = 0" | "i = 1" | "i = 2" | "i = 3" | "i = 4" | "i = 5" | "i = 6"
    by linarith
  then show ?thesis
    by cases (simp_all add: weekday_names_def date_options_def)
qed

lemma weekday_shift: "0 \<le> k \<Longrightarrow> k < 7 \<Longrightarrow> weekday (today + (k - weekday today)) = k"
  unfolding weekday_def by presburger

text \<open>
  Claim C2. A weekday name that occurs in the text resolves to today plus the offset
  (weekday index minus today's weekday index), which is the day of that weekday in
  today's week, Monday first, and may lie before today; the text \<^verbatim>\<open>monday\<close> on a
  Wednesday gives the one date today minus 2 days.
\<close>

theorem get_date_weekday:
  "(\<forall>i ds. i < 7 \<and> str_in (weekday_names ! i) text \<and> get_date today text = Inr ds \<longrightarrow>
       today + (int i - weekday today) \<in> set ds \<and>
       weekday (today + (int i - weekday today)) = int i)
   \<and> (weekday today = 2 \<and> 2 < today \<and> today \<le> MAXORDINAL \<longrightarrow>
         get_date today ''monday'' = Inr [today - 2])"
proof (intro conjI allI impI)
  fix i ds
  assume a: "i < 7 \<and> str_in (weekday_names ! i) text \<and> get_date today text = Inr ds"
  let ?found = "filter (\<lambda>(day, date_diff). str_in day text) (date_options today)"
  from a have mem: "(weekday_names ! i, int i - weekday today) \<in> set ?found"
    using weekday_option [of i today] by simp
  then have "?found \<noteq> []" by (auto simp: filter_empty_conv)
  with a have "ds = sort (map (\<lambda>(day, date_diff). today + date_diff) ?found)"
    using get_date_Inr [of today "text" ds] by (simp add: Let_def)
  then have "set ds = (\<lambda>(day, date_diff). today + date_diff) ` set ?found" by simp
  with mem show "today + (int i - weekday today) \<in> set ds" by force
  from a show "weekday (today + (int i - weekday today)) = int i"
    using weekday_shift [of "int i" today] by simp
next
  assume "weekday today = 2 \<and> 2 < today \<and> today \<le> MAXORDINAL"
  then show "get_date today ''monday'' = Inr [today - 2]"
    by (simp add: get_date_def date_options_def add_days_def)
qed

text \<open>Wednesday 4 November 2026 has ordinal 739924; the Monday of its week is 739922.\<close>

theorem get_date_weekday_witness:
  "get_date 739924 ''monday groenenborger'' = Inr [739922]
   \<and> weekday 739924 = 2
   \<and> 739924 + (int 0 - weekday 739924) \<in> set [739922 :: date]
   \<and> get_date 739924 ''monday'' = Inr [739924 - 2]"
proof -
  have run: "get_date 739924 ''monday groenenborger'' = Inr [739922]"
    by (simp add: get_date_def date_options_def weekday_def add_days_def MAXORDINAL_def)
  have wd: "weekday 739924 = 2"
    by (simp add: weekday_def)
  have kw: "(0 :: nat) < 7 \<and> str_in (weekday_names ! 0) ''monday groenenborger''"
    by (simp add: weekday_names_def)
  have range: "(2 :: int) < 739924 \<and> 739924 \<le> MAXORDINAL"
    by (simp add: MAXORDINAL_def)
  from get_date_weekday [of "''monday groenenborger''" 739924] run wd kw range show ?thesis
    by simp
qed

section \<open>Properties of the menu repository\<close>

subsection \<open>The entries of the result\<close>

lemma set_update_subset: "set (AList.update k v al) \<subseteq> insert (k, v) (set al)"
  by (induction al) auto

lemma setitem2_entries:
  "(k, menu_items) \<in> set (setitem2 key menu_type v menu) \<Longrightarrow>
     (k = key \<and> menu_items \<noteq> []) \<or> (k, menu_items) \<in> set menu"
proof -
  assume "(k, menu_items) \<in> set (setitem2 key menu_type v menu)"
  then have "(k, menu_items) \<in>
      insert (key, AList.update menu_type v (case map_of menu key of None \<Rightarrow> [] | Some d \<Rightarrow> d))
        (set menu)"
    using set_update_subset unfolding setitem2_def by fastforce
  then show ?thesis by auto
qed

lemma store_rows_entries:
  "(k, menu_items) \<in> set (store_rows key rows menu) \<Longrightarrow>
     (k = key \<and> menu_items \<noteq> [] \<and> rows \<noteq> []) \<or> (k, menu_items) \<in> set menu"
proof (induction key rows menu rule: store_rows.induct)
  case (1 key menu)
  then show ?case by simp
next
  case (2 key menu_type menu_item price_student price_staff rows menu)
  then show ?case
    using setitem2_entries [of k menu_items key menu_type "(menu_item, price_student, price_staff)" menu]
    by auto
qed

lemma setitem2_keys:
  "fst ` set (setitem2 key menu_type v menu) = insert key (fst ` set menu)"
  by (simp add: setitem2_def dom_update)

lemma store_rows_keys:
  "fst ` set (store_rows key rows menu) = (if rows = [] then {} else {key}) \<union> fst ` set menu"
  by (induction key rows menu rule: store_rows.induct) (auto simp: setitem2_keys)

lemma get_menu_loop_frame:
  "get_menu_loop w pairs menu = (r, w') \<Longrightarrow>
     table w' = table w \<and> connect_exn w' = connect_exn w \<and> posted w' = posted w \<and>
     logged w' = logged w"
  by (induction w pairs menu rule: get_menu_loop.induct)
     (auto simp: execute_fetchall_def split: sum.splits)

lemma get_menu_loop_entries:
  "get_menu_loop w pairs menu = (Inr menu', w') \<Longrightarrow> (k, menu_items) \<in> set menu' \<Longrightarrow>
     (menu_items \<noteq> [] \<and> k \<in> set pairs \<and>
        (\<exists>rows. table w (fst k) (snd k) = Inr rows \<and> rows \<noteq> []))
     \<or> (k, menu_items) \<in> set menu"
proof (induction pairs arbitrary: w menu)
  case Nil
  then show ?case by simp
next
  case (Cons pair pairs)
  obtain d campus where pair: "pair = (d, campus)" by (cases pair)
  from Cons.prems(1) obtain rows where
    rows: "table w d campus = Inr rows" and
    rest: "get_menu_loop (w\<lparr>db_log := db_log w @ [Execute d campus]\<rparr>) pairs
             (store_rows (d, campus) rows menu) = (Inr menu', w')"
    by (auto simp: pair execute_fetchall_def split: sum.splits)
  from Cons.IH [OF rest] Cons.prems(2)
  have "(menu_items \<noteq> [] \<and> k \<in> set pairs \<and>
          (\<exists>rows. table w (fst k) (snd k) = Inr rows \<and> rows \<noteq> []))
        \<or> (k, menu_items) \<in> set (store_rows (d, campus) rows menu)"
    by simp
  then show ?case
    using store_rows_entries [of k menu_items "(d, campus)" rows menu] rows pair by auto
qed

lemma get_menu_loop_keys:
  "get_menu_loop w pairs menu = (Inr menu', w') \<Longrightarrow>
     fst ` set menu' =
       {k \<in> set pairs. \<exists>rows. table w (fst k) (snd k) = Inr rows \<and> rows \<noteq> []} \<union> fst ` set menu"
proof (induction pairs arbitrary: w menu)
  case Nil
  then show ?case by simp
next
  case (Cons pair pairs)
  obtain d campus where pair: "pair = (d, campus)" by (cases pair)
  from Cons.prems(1) obtain rows where
    rows: "table w d campus = Inr rows" and
    rest: "get_menu_loop (w\<lparr>db_log := db_log w @ [Execute d campus]\<rparr>) pairs
             (store_rows (d, campus) rows menu) = (Inr menu', w')"
    by (auto simp: pair execute_fetchall_def split: sum.splits)
  from Cons.IH [OF rest]
  have "fst ` set menu' =
          {k \<in> set pairs. \<exists>rows. table w (fst k) (snd k) = Inr rows \<and> rows \<noteq> []} \<union>
          fst ` set (store_rows (d, campus) rows menu)"
    by simp
  then show ?case
    using rows pair by (auto simp: store_rows_keys split: if_splits)
qed

lemma get_menu_loop_returns:
  "\<forall>(d, campus) \<in> set pairs. \<exists>rows. table w d campus = Inr rows \<Longrightarrow>
     \<exists>menu' w'. get_menu_loop w pairs menu = (Inr menu', w')"
proof (induction pairs arbitrary: w menu)
  case Nil
  then show ?case by simp
next
  case (Cons pair pairs)
  obtain d campus where pair: "pair = (d, campus)" by (cases pair)
  from Cons.prems pair obtain rows where rows: "table w d campus = Inr rows" by auto
  have "\<forall>(d', campus') \<in> set pairs.
          \<exists>rows. table (w\<lparr>db_log := db_log w @ [Execute d campus]\<rparr>) d' campus' = Inr rows"
    using Cons.prems by auto
  from Cons.IH [OF this, of "store_rows (d, campus) rows menu"]
  show ?case
    by (simp add: pair execute_fetchall_def rows)
qed

text \<open>
  Claim C5. The mapping \<^verbatim>\<open>get_menu\<close> returns has an entry for a key (date, campus) only
  if that date and campus were asked for and their query returned at least one row, and
  no entry of it has an empty set of items. \<^verbatim>\<open>get_menu\<close> returns whenever the connection
  opens and no query raises.
\<close>

theorem get_menu_no_empty_entry:
  "((connect_exn w = None \<and>
      (\<forall>d \<in> set dates. \<forall>campus \<in> set campuses. \<exists>rows. table w d campus = Inr rows))
     \<longrightarrow> (\<exists>menu w'. get_menu w campuses dates = (Inr menu, w')))
   \<and> (\<forall>menu w'. get_menu w campuses dates = (Inr menu, w') \<longrightarrow>
        (\<forall>((d, campus), menu_items) \<in> set menu.
           menu_items \<noteq> [] \<and> d \<in> set dates \<and> campus \<in> set campuses \<and>
           (\<exists>rows. table w d campus = Inr rows \<and> rows \<noteq> [])))"
proof (intro conjI impI allI)
  assume a: "connect_exn w = None \<and>
      (\<forall>d \<in> set dates. \<forall>campus \<in> set campuses. \<exists>rows. table w d campus = Inr rows)"
  then have "\<forall>(d, campus) \<in> set (List.product dates campuses).
               \<exists>rows. table (w\<lparr>db_log := db_log w @ [Connect]\<rparr>) d campus = Inr rows"
    by auto
  from get_menu_loop_returns [OF this, of "[]"] a
  show "\<exists>menu w'. get_menu w campuses dates = (Inr menu, w')"
    by (auto simp: get_menu_def sqlite3_connect_def)
next
  fix menu w'
  assume run: "get_menu w campuses dates = (Inr menu, w')"
  then have loop: "get_menu_loop (w\<lparr>db_log := db_log w @ [Connect]\<rparr>)
                     (List.product dates campuses) [] = (Inr menu, w')"
    by (auto simp: get_menu_def sqlite3_connect_def split: option.splits)
  show "\<forall>((d, campus), menu_items) \<in> set menu.
           menu_items \<noteq> [] \<and> d \<in> set dates \<and> campus \<in> set campuses \<and>
           (\<exists>rows. table w d campus = Inr rows \<and> rows \<noteq> [])"
    using get_menu_loop_entries [OF loop] by fastforce
qed

theorem get_menu_no_empty_entry_witness:
  "(\<exists>menu w'. get_menu example_world [''cmi'', ''cst''] [739923, 739924] = (Inr menu, w'))
   \<and> [(''soup'', (''tomato soup'', ''3.00'', ''4.00'')),
       (''grill pasta'', (''grilled chicken penne'', ''5.00'', ''6.50''))] \<noteq> []
   \<and> (\<exists>rows. table example_world 739924 ''cmi'' = Inr rows \<and> rows \<noteq> [])"
proof -
  have run: "get_menu example_world [''cmi'', ''cst''] [739923, 739924] =
     (Inr [((739924, ''cmi''),
            [(''soup'', (''tomato soup'', ''3.00'', ''4.00'')),
             (''grill pasta'', (''grilled chicken penne'', ''5.00'', ''6.50''))])],
      example_world\<lparr>db_log := [Connect, Execute 739923 ''cmi'', Execute 739923 ''cst'',
                                Execute 739924 ''cmi'', Execute 739924 ''cst'']\<rparr>)"
    by (simp add: get_menu_def sqlite3_connect_def execute_fetchall_def setitem2_def
        example_world_def example_table_def)
  have ok: "connect_exn example_world = None \<and>
      (\<forall>d \<in> set [739923, 739924]. \<forall>campus \<in> set [''cmi'', ''cst''].
         \<exists>rows. table example_world d campus = Inr rows)"
    by (simp add: example_world_def example_table_def)
  from get_menu_no_empty_entry [of example_world "[739923, 739924]" "[''cmi'', ''cst'']"] run ok
  show ?thesis by simp
qed

subsection \<open>The result is a dictionary\<close>

lemma setitem2_distinct:
  assumes "distinct (map fst menu)" "\<forall>(k, menu_items) \<in> set menu. distinct (map fst menu_items)"
  shows "distinct (map fst (setitem2 key menu_type v menu)) \<and>
         (\<forall>(k, menu_items) \<in> set (setitem2 key menu_type v menu). distinct (map fst menu_items))"
proof -
  let ?inner = "case map_of menu key of None \<Rightarrow> [] | Some d \<Rightarrow> d"
  have "distinct (map fst ?inner)"
    using assms(2) by (auto split: option.splits dest: map_of_SomeD)
  then have inner: "distinct (map fst (AList.update menu_type v ?inner))"
    by (rule distinct_update)
  have "set (setitem2 key menu_type v menu) \<subseteq>
          insert (key, AList.update menu_type v ?inner) (set menu)"
    unfolding setitem2_def by (rule set_update_subset)
  with inner assms(2) have "\<forall>(k, menu_items) \<in> set (setitem2 key menu_type v menu).
                              distinct (map fst menu_items)"
    by blast
  moreover have "distinct (map fst (setitem2 key menu_type v menu))"
    unfolding setitem2_def using assms(1) by (rule distinct_update)
  ultimately show ?thesis by simp
qed

lemma store_rows_distinct:
  "distinct (map fst menu) \<Longrightarrow> \<forall>(k, menu_items) \<in> set menu. distinct (map fst menu_items) \<Longrightarrow>
     distinct (map fst (store_rows key rows menu)) \<and>
     (\<forall>(k, menu_items) \<in> set (store_rows key rows menu). distinct (map fst menu_items))"
proof (induction key rows menu rule: store_rows.induct)
  case (1 key menu)
  then show ?case by simp
next
  case (2 key menu_type menu_item price_student price_staff rows menu)
  from setitem2_distinct [OF "2.prems", of key menu_type "(menu_item, price_student, price_staff)"]
  show ?case
    using "2.IH" by simp
qed

lemma get_menu_loop_distinct:
  "get_menu_loop w pairs menu = (Inr menu', w') \<Longrightarrow> distinct (map fst menu) \<Longrightarrow>
     \<forall>(k, menu_items) \<in> set menu. distinct (map fst menu_items) \<Longrightarrow>
     distinct (map fst menu') \<and> (\<forall>(k, menu_items) \<in> set menu'. distinct (map fst menu_items))"
proof (induction pairs arbitrary: w menu)
  case Nil
  then show ?case by simp
next
  case (Cons pair pairs)
  obtain d campus where pair: "pair = (d, campus)" by (cases pair)
  from Cons.prems(1) obtain rows where
    rest: "get_menu_loop (w\<lparr>db_log := db_log w @ [Execute d campus]\<rparr>) pairs
             (store_rows (d, campus) rows menu) = (Inr menu', w')"
    by (auto simp: pair execute_fetchall_def split: sum.splits)
  from store_rows_distinct [OF Cons.prems(2,3), of "(d, campus)" rows]
  show ?case
    using Cons.IH [OF rest] by blast
qed

text \<open>What \<^verbatim>\<open>get_menu\<close> returns is a dictionary of dictionaries: no key occurs twice.\<close>

lemma get_menu_distinct:
  assumes "get_menu w campuses dates = (Inr menu, w')"
  shows "distinct (map fst menu) \<and> (\<forall>(k, menu_items) \<in> set menu. distinct (map fst menu_items))"
proof -
  from assms have "get_menu_loop (w\<lparr>db_log := db_log w @ [Connect]\<rparr>)
                     (List.product dates campuses) [] = (Inr menu, w')"
    by (auto simp: get_menu_def sqlite3_connect_def split: option.splits)
  from get_menu_loop_distinct [OF this] show ?thesis by simp
qed

text \<open>Its keys are the pairs asked for whose query returned a row.\<close>

lemma get_menu_keys:
  assumes "get_menu w campuses dates = (Inr menu, w')"
  shows "fst ` set menu =
           {(d, campus). d \<in> set dates \<and> campus \<in> set campuses \<and>
              (\<exists>rows. table w d campus = Inr rows \<and> rows \<noteq> [])}"
proof -
  from assms have "get_menu_loop (w\<lparr>db_log := db_log w @ [Connect]\<rparr>)
                     (List.product dates campuses) [] = (Inr menu, w')"
    by (auto simp: get_menu_def sqlite3_connect_def split: option.splits)
  from get_menu_loop_keys [OF this] show ?thesis by auto
qed

subsection \<open>The connection\<close>

lemma get_menu_loop_log:
  "\<exists>n \<le> length pairs.
     db_log (snd (get_menu_loop w pairs menu)) =
       db_log w @ map (\<lambda>(d, campus). Execute d campus) (take n pairs)"
proof (induction pairs arbitrary: w menu)
  case Nil
  then show ?case by simp
next
  case (Cons pair pairs)
  obtain d campus where pair: "pair = (d, campus)" by (cases pair)
  show ?case
  proof (cases "table w d campus")
    case (Inl e)
    then have "db_log (snd (get_menu_loop w (pair # pairs) menu)) =
                 db_log w @ map (\<lambda>(d, campus). Execute d campus) (take 1 (pair # pairs))"
      by (simp add: pair execute_fetchall_def)
    then show ?thesis by (metis One_nat_def Suc_le_mono le0 length_Cons)
  next
    case (Inr rows)
    from Cons.IH [of "w\<lparr>db_log := db_log w @ [Execute d campus]\<rparr>" "store_rows (d, campus) rows menu"]
    obtain n where n: "n \<le> length pairs"
      "db_log (snd (get_menu_loop (w\<lparr>db_log := db_log w @ [Execute d campus]\<rparr>) pairs
                      (store_rows (d, campus) rows menu))) =
         (db_log w @ [Execute d campus]) @ map (\<lambda>(d, campus). Execute d campus) (take n pairs)"
      by auto
    then have "db_log (snd (get_menu_loop w (pair # pairs) menu)) =
                 db_log w @ map (\<lambda>(d, campus). Execute d campus) (take (Suc n) (pair # pairs))"
      by (simp add: pair execute_fetchall_def Inr)
    with n(1) show ?thesis by (metis Suc_le_mono length_Cons)
  qed
qed

lemma get_menu_frame:
  "table (snd (get_menu w campuses dates)) = table w \<and>
   connect_exn (snd (get_menu w campuses dates)) = connect_exn w \<and>
   posted (snd (get_menu w campuses dates)) = posted w \<and>
   logged (snd (get_menu w campuses dates)) = logged w"
proof (cases "connect_exn w")
  case None
  obtain r w' where run: "get_menu_loop (w\<lparr>db_log := db_log w @ [Connect]\<rparr>)
                            (List.product dates campuses) [] = (r, w')"
    by (cases "get_menu_loop (w\<lparr>db_log := db_log w @ [Connect]\<rparr>)
                 (List.product dates campuses) []")
  from get_menu_loop_frame [OF run] run None show ?thesis
    by (simp add: get_menu_def sqlite3_connect_def)
next
  case (Some e)
  then show ?thesis by (simp add: get_menu_def sqlite3_connect_def)
qed

text \<open>
  Claim C4, as the specification states it: the connection is released on every exit
  path. \<^verbatim>\<open>get_menu\<close> never calls \<^verbatim>\<open>close\<close>: when it returns the menu, and when its query
  raises, the calls it has made are \<^verbatim>\<open>connect\<close> and \<^verbatim>\<open>execute\<close> only.
\<close>

theorem get_menu_leaves_connection:
  "get_menu example_world [''cmi''] [739924] =
     (Inr [((739924, ''cmi''),
            [(''soup'', (''tomato soup'', ''3.00'', ''4.00'')),
             (''grill pasta'', (''grilled chicken penne'', ''5.00'', ''6.50''))])],
      example_world\<lparr>db_log := [Connect, Execute 739924 ''cmi'']\<rparr>)
   \<and> get_menu locked_world [''cmi''] [739924] =
       (Inl (Error ''database is locked''),
        locked_world\<lparr>db_log := [Connect, Execute 739924 ''cmi'']\<rparr>)
   \<and> Close \<notin> set [Connect, Execute 739924 ''cmi'']"
  by (simp add: get_menu_def sqlite3_connect_def execute_fetchall_def setitem2_def
      example_world_def locked_world_def example_table_def)

text \<open>
  Claim C4, amended. Each call of \<^verbatim>\<open>get_menu\<close> opens one fresh connection (none when
  \<^verbatim>\<open>connect\<close> itself raises), runs on it the queries of the pairs up to the last one or
  up to the first that raises, and leaves the store as it was; on no exit path does it
  close the connection, which is left to the Python runtime to reclaim.
\<close>

theorem get_menu_never_closes:
  "(\<exists>n \<le> length (List.product dates campuses).
      db_log (snd (get_menu w campuses dates)) =
        db_log w @
        (case connect_exn w of
           Some e \<Rightarrow> []
         | None \<Rightarrow> Connect # map (\<lambda>(d, campus). Execute d campus)
                              (take n (List.product dates campuses))))
   \<and> Close \<notin> set (drop (length (db_log w)) (db_log (snd (get_menu w campuses dates))))
   \<and> table (snd (get_menu w campuses dates)) = table w"
proof -
  have shape: "\<exists>n \<le> length (List.product dates campuses).
      db_log (snd (get_menu w campuses dates)) =
        db_log w @
        (case connect_exn w of
           Some e \<Rightarrow> []
         | None \<Rightarrow> Connect # map (\<lambda>(d, campus). Execute d campus)
                              (take n (List.product dates campuses)))"
  proof (cases "connect_exn w")
    case None
    from get_menu_loop_log [of "List.product dates campuses" "w\<lparr>db_log := db_log w @ [Connect]\<rparr>" "[]"]
    show ?thesis
      by (simp add: get_menu_def sqlite3_connect_def None)
  next
    case (Some e)
    then show ?thesis
      by (auto simp: get_menu_def sqlite3_connect_def intro: exI [of _ 0])
  qed
  then obtain n where "db_log (snd (get_menu w campuses dates)) =
        db_log w @
        (case connect_exn w of
           Some e \<Rightarrow> []
         | None \<Rightarrow> Connect # map (\<lambda>(d, campus). Execute d campus)
                              (take n (List.product dates campuses)))"
    by blast
  then have "Close \<notin> set (drop (length (db_log w)) (db_log (snd (get_menu w campuses dates))))"
    by (auto split: option.splits)
  with shape get_menu_frame [of w campuses dates] show ?thesis by blast
qed

section \<open>Properties of the menu formatter\<close>

subsection \<open>Joining lines\<close>

lemma join_Cons: "join sep (l # ls) = l @ (if ls = [] then [] else sep @ join sep ls)"
  by (cases ls) simp_all

lemma join_append:
  "join sep (xs @ l # ys) = (if xs = [] then [] else join sep xs @ sep) @ join sep (l # ys)"
proof (induction xs rule: join.induct [of _ sep])
  case (1 sep')
  then show ?case by simp
next
  case (2 sep' x)
  then show ?case by simp
next
  case (3 sep' x y ys')
  then show ?case by simp
qed

text \<open>Two lines that follow each other in the list follow each other in the joined text.\<close>

lemma join_adjacent:
  "\<exists>pre post. join sep (xs @ l1 # l2 # ys) = pre @ l1 @ sep @ l2 @ post"
proof -
  have "join sep (xs @ l1 # l2 # ys) =
          (if xs = [] then [] else join sep xs @ sep) @ l1 @ sep @ l2 @
          (if ys = [] then [] else sep @ join sep ys)"
    by (simp only: join_append [of sep xs l1] join_Cons [of sep l1] join_Cons [of sep l2])
       simp
  then show ?thesis by blast
qed

text \<open>A line of the list and a later one: the first ends its line in the joined text.\<close>

lemma join_two_lines:
  "\<exists>pre mid post. join sep (xs @ l1 # ys @ l2 # zs) = pre @ l1 @ sep @ mid @ l2 @ post"
proof -
  have "join sep (xs @ l1 # ys @ l2 # zs) =
          (if xs = [] then [] else join sep xs @ sep) @ l1 @ sep @ join sep (ys @ l2 # zs)"
    by (simp only: join_append [of sep xs l1] join_Cons [of sep l1]) simp
  also have "join sep (ys @ l2 # zs) =
          (if ys = [] then [] else join sep ys @ sep) @ l2 @
          (if zs = [] then [] else sep @ join sep zs)"
    by (simp only: join_append [of sep ys l2] join_Cons [of sep l2])
  finally show ?thesis by (metis append_assoc)
qed

subsection \<open>The groups of lines\<close>

lemma filter_key_eq:
  "distinct (map fst menu) \<Longrightarrow>
     filter (\<lambda>(key, entry). key = c) menu =
       (case map_of menu c of None \<Rightarrow> [] | Some entry \<Rightarrow> [(c, entry)])"
proof (induction menu)
  case Nil
  then show ?case by simp
next
  case (Cons p menu)
  obtain k v where p: "p = (k, v)" by (cases p)
  show ?case
  proof (cases "k = c")
    case True
    with Cons.prems p have "c \<notin> fst ` set menu" by auto
    then have "filter (\<lambda>(key, entry). key = c) menu = []"
      by (force simp: filter_empty_conv)
    with True p show ?thesis by simp
  next
    case False
    with Cons p show ?thesis by simp
  qed
qed

lemma group_lines_key:
  "distinct (map fst menu) \<Longrightarrow>
     group_lines fmt icon (\<lambda>key. key = c) menu =
       (case map_of menu c of Some entry \<Rightarrow> [menu_line fmt icon entry] | None \<Rightarrow> [])"
  by (simp add: group_lines_def filter_key_eq split: option.splits)

lemma group_lines_keys:
  assumes "distinct (map fst menu)"
  shows "map (\<lambda>key. menu_line fmt icon (the (map_of menu key))) (filter rule (map fst menu)) =
           group_lines fmt icon rule menu"
proof -
  have lookup: "map_of menu k = Some v" if "(k, v) \<in> set menu" for k v
    using assms that by (rule map_of_is_SomeI)
  have "map (\<lambda>key. menu_line fmt icon (the (map_of menu key))) (filter rule (map fst xs)) =
          map (\<lambda>(key, entry). menu_line fmt icon entry) (filter (\<lambda>(key, entry). rule key) xs)"
    if "set xs \<subseteq> set menu" for xs
    using that
  proof (induction xs)
    case Nil
    then show ?case by simp
  next
    case (Cons p xs)
    obtain k v where p: "p = (k, v)" by (cases p)
    with Cons.prems have "map_of menu k = Some v" by (simp add: lookup)
    with Cons p show ?case by simp
  qed
  then show ?thesis by (simp add: group_lines_def)
qed

lemma message_groups:
  assumes "distinct (map fst menu)"
  shows "message fmt menu =
           group_lines fmt '':tea:'' (\<lambda>key. key = ''soup'') menu @
           group_lines fmt '':tomato:'' (\<lambda>key. key = ''vegetarian'') menu @
           group_lines fmt '':poultry_leg:'' (\<lambda>key. key = ''meat'') menu @
           group_lines fmt '':meat_on_bone:'' (\<lambda>key. str_in ''grill'' key) menu @
           group_lines fmt '':spaghetti:'' (\<lambda>key. str_in ''pasta'' key) menu"
  unfolding message_def
  by (simp only: group_lines_key [OF assms] group_lines_keys [OF assms])

lemma group_lines_filter:
  assumes "\<And>key. rule key \<Longrightarrow> keep key"
  shows "group_lines fmt icon rule (filter (\<lambda>(key, entry). keep key) menu) =
           group_lines fmt icon rule menu"
proof -
  have "filter (\<lambda>(key, entry). rule key) (filter (\<lambda>(key, entry). keep key) menu) =
          filter (\<lambda>(key, entry). rule key) menu"
    using assms by (induction menu) auto
  then show ?thesis by (simp only: group_lines_def)
qed

lemma message_same_dict:
  assumes "distinct (map fst menu)" "distinct (map fst menu')" "set menu' = set menu"
    and "filter (\<lambda>key. str_in ''grill'' key) (map fst menu') =
         filter (\<lambda>key. str_in ''grill'' key) (map fst menu)"
    and "filter (\<lambda>key. str_in ''pasta'' key) (map fst menu') =
         filter (\<lambda>key. str_in ''pasta'' key) (map fst menu)"
  shows "message fmt menu' = message fmt menu"
proof -
  have "map_of menu' = map_of menu"
    using assms(1-3) by (simp add: map_of_inject_set)
  with assms(4,5) show ?thesis
    by (simp add: message_def)
qed

text \<open>
  Claim C6, as the specification states it: the output does not depend on the order in
  which the entry holds its categories. Two entries with the same two categories, both
  containing \<^verbatim>\<open>grill\<close>, in opposite orders, are formatted differently.
\<close>

theorem format_menu_order_dependent:
  "distinct (map fst [(''grill'', (''spare ribs'', ''5.00'', ''6.50'')),
                      (''grill vegetarian'', (''halloumi'', ''4.50'', ''6.00''))])
   \<and> distinct (map fst [(''grill vegetarian'', (''halloumi'', ''4.50'', ''6.00'')),
                        (''grill'', (''spare ribs'', ''5.00'', ''6.50''))])
   \<and> set [(''grill'', (''spare ribs'', ''5.00'', ''6.50'')),
           (''grill vegetarian'', (''halloumi'', ''4.50'', ''6.00''))] =
       set [(''grill vegetarian'', (''halloumi'', ''4.50'', ''6.00'')),
            (''grill'', (''spare ribs'', ''5.00'', ''6.50''))]
   \<and> format_menu (\<lambda>p. p) [(''grill'', (''spare ribs'', ''5.00'', ''6.50'')),
                            (''grill vegetarian'', (''halloumi'', ''4.50'', ''6.00''))] \<noteq>
       format_menu (\<lambda>p. p) [(''grill vegetarian'', (''halloumi'', ''4.50'', ''6.00'')),
                            (''grill'', (''spare ribs'', ''5.00'', ''6.50''))]"
  by (auto simp: format_menu_def message_def menu_line_def euro_def newline_def)

text \<open>
  Claim C6, amended. For an entry (a dictionary: its keys are distinct), the lines of
  the returned text, each after the other and a line feed between two, are
  those of the rule for \<^verbatim>\<open>soup\<close>, then \<^verbatim>\<open>vegetarian\<close>, then \<^verbatim>\<open>meat\<close>, then the categories
  containing \<^verbatim>\<open>grill\<close>, then those containing \<^verbatim>\<open>pasta\<close>; inside the last two groups the
  lines follow the entry's own order. A category that no rule matches adds no line. The
  output is the same for two orders of the same entry that list the \<^verbatim>\<open>grill\<close> categories
  alike and the \<^verbatim>\<open>pasta\<close> categories alike.
\<close>

theorem format_menu_priority_order:
  "distinct (map fst menu) \<longrightarrow>
     message fmt menu =
       group_lines fmt '':tea:'' (\<lambda>key. key = ''soup'') menu @
       group_lines fmt '':tomato:'' (\<lambda>key. key = ''vegetarian'') menu @
       group_lines fmt '':poultry_leg:'' (\<lambda>key. key = ''meat'') menu @
       group_lines fmt '':meat_on_bone:'' (\<lambda>key. str_in ''grill'' key) menu @
       group_lines fmt '':spaghetti:'' (\<lambda>key. str_in ''pasta'' key) menu
     \<and> format_menu fmt (filter (\<lambda>(key, entry). recognised key) menu) = format_menu fmt menu
     \<and> (\<forall>menu'. distinct (map fst menu') \<and> set menu' = set menu \<and>
            filter (\<lambda>key. str_in ''grill'' key) (map fst menu') =
              filter (\<lambda>key. str_in ''grill'' key) (map fst menu) \<and>
            filter (\<lambda>key. str_in ''pasta'' key) (map fst menu') =
              filter (\<lambda>key. str_in ''pasta'' key) (map fst menu)
          \<longrightarrow> format_menu fmt menu' = format_menu fmt menu)
     \<and> format_menu fmt menu =
         join newline
           (group_lines fmt '':tea:'' (\<lambda>key. key = ''soup'') menu @
            group_lines fmt '':tomato:'' (\<lambda>key. key = ''vegetarian'') menu @
            group_lines fmt '':poultry_leg:'' (\<lambda>key. key = ''meat'') menu @
            group_lines fmt '':meat_on_bone:'' (\<lambda>key. str_in ''grill'' key) menu @
            group_lines fmt '':spaghetti:'' (\<lambda>key. str_in ''pasta'' key) menu)
     \<and> (\<forall>before l1 l2 after.
            group_lines fmt '':tea:'' (\<lambda>key. key = ''soup'') menu @
            group_lines fmt '':tomato:'' (\<lambda>key. key = ''vegetarian'') menu @
            group_lines fmt '':poultry_leg:'' (\<lambda>key. key = ''meat'') menu @
            group_lines fmt '':meat_on_bone:'' (\<lambda>key. str_in ''grill'' key) menu @
            group_lines fmt '':spaghetti:'' (\<lambda>key. str_in ''pasta'' key) menu =
              before @ l1 # l2 # after
          \<longrightarrow> (\<exists>pre post. format_menu fmt menu = pre @ l1 @ newline @ l2 @ post))"
proof (intro impI conjI allI)
  assume d: "distinct (map fst menu)"
  show "message fmt menu =
       group_lines fmt '':tea:'' (\<lambda>key. key = ''soup'') menu @
       group_lines fmt '':tomato:'' (\<lambda>key. key = ''vegetarian'') menu @
       group_lines fmt '':poultry_leg:'' (\<lambda>key. key = ''meat'') menu @
       group_lines fmt '':meat_on_bone:'' (\<lambda>key. str_in ''grill'' key) menu @
       group_lines fmt '':spaghetti:'' (\<lambda>key. str_in ''pasta'' key) menu"
    by (rule message_groups [OF d])
  have d': "distinct (map fst (filter (\<lambda>(key, entry). recognised key) menu))"
    using d by (rule distinct_map_filter)
  have g1: "group_lines fmt '':tea:'' (\<lambda>key. key = ''soup'')
              (filter (\<lambda>(key, entry). recognised key) menu) =
            group_lines fmt '':tea:'' (\<lambda>key. key = ''soup'') menu"
    by (rule group_lines_filter) (simp add: recognised_def)
  have g2: "group_lines fmt '':tomato:'' (\<lambda>key. key = ''vegetarian'')
              (filter (\<lambda>(key, entry). recognised key) menu) =
            group_lines fmt '':tomato:'' (\<lambda>key. key = ''vegetarian'') menu"
    by (rule group_lines_filter) (simp add: recognised_def)
  have g3: "group_lines fmt '':poultry_leg:'' (\<lambda>key. key = ''meat'')
              (filter (\<lambda>(key, entry). recognised key) menu) =
            group_lines fmt '':poultry_leg:'' (\<lambda>key. key = ''meat'') menu"
    by (rule group_lines_filter) (simp add: recognised_def)
  have g4: "group_lines fmt '':meat_on_bone:'' (\<lambda>key. str_in ''grill'' key)
              (filter (\<lambda>(key, entry). recognised key) menu) =
            group_lines fmt '':meat_on_bone:'' (\<lambda>key. str_in ''grill'' key) menu"
    by (rule group_lines_filter) (simp add: recognised_def)
  have g5: "group_lines fmt '':spaghetti:'' (\<lambda>key. str_in ''pasta'' key)
              (filter (\<lambda>(key, entry). recognised key) menu) =
            group_lines fmt '':spaghetti:'' (\<lambda>key. str_in ''pasta'' key) menu"
    by (rule group_lines_filter) (simp add: recognised_def)
  have "message fmt (filter (\<lambda>(key, entry). recognised key) menu) = message fmt menu"
    unfolding message_groups [OF d] message_groups [OF d']
    by (simp only: g1 g2 g3 g4 g5)
  then show "format_menu fmt (filter (\<lambda>(key, entry). recognised key) menu) = format_menu fmt menu"
    by (simp add: format_menu_def)
  fix menu'
  assume "distinct (map fst menu') \<and> set menu' = set menu \<and>
            filter (\<lambda>key. str_in ''grill'' key) (map fst menu') =
              filter (\<lambda>key. str_in ''grill'' key) (map fst menu) \<and>
            filter (\<lambda>key. str_in ''pasta'' key) (map fst menu') =
              filter (\<lambda>key. str_in ''pasta'' key) (map fst menu)"
  with d have "message fmt menu' = message fmt menu"
    using message_same_dict [of menu menu' fmt] by blast
  then show "format_menu fmt menu' = format_menu fmt menu"
    by (simp add: format_menu_def)
next
  assume d: "distinct (map fst menu)"
  show "format_menu fmt menu =
         join newline
           (group_lines fmt '':tea:'' (\<lambda>key. key = ''soup'') menu @
            group_lines fmt '':tomato:'' (\<lambda>key. key = ''vegetarian'') menu @
            group_lines fmt '':poultry_leg:'' (\<lambda>key. key = ''meat'') menu @
            group_lines fmt '':meat_on_bone:'' (\<lambda>key. str_in ''grill'' key) menu @
            group_lines fmt '':spaghetti:'' (\<lambda>key. str_in ''pasta'' key) menu)"
    by (simp only: format_menu_def message_groups [OF d])
next
  fix before l1 l2 after
  assume d: "distinct (map fst menu)"
  assume "group_lines fmt '':tea:'' (\<lambda>key. key = ''soup'') menu @
          group_lines fmt '':tomato:'' (\<lambda>key. key = ''vegetarian'') menu @
          group_lines fmt '':poultry_leg:'' (\<lambda>key. key = ''meat'') menu @
          group_lines fmt '':meat_on_bone:'' (\<lambda>key. str_in ''grill'' key) menu @
          group_lines fmt '':spaghetti:'' (\<lambda>key. str_in ''pasta'' key) menu =
            before @ l1 # l2 # after"
  then have "format_menu fmt menu = join newline (before @ l1 # l2 # after)"
    by (simp only: format_menu_def message_groups [OF d])
  then show "\<exists>pre post. format_menu fmt menu = pre @ l1 @ newline @ l2 @ post"
    using join_adjacent [of newline before l1 l2 after] by simp
qed

text \<open>
  An entry with a category no rule matches, and the same entry in another order.
\<close>

theorem format_menu_priority_order_witness:
  "message (\<lambda>p. p) [(''pasta'', (''penne'', ''4.00'', ''5.00'')), (''dessert'', (''pie'', ''1.00'', ''1.50'')),
                      (''meat'', (''stew'', ''5.00'', ''6.00'')), (''soup'', (''leek soup'', ''2.00'', ''2.50''))] =
     [menu_line (\<lambda>p. p) '':tea:'' (''leek soup'', ''2.00'', ''2.50''),
      menu_line (\<lambda>p. p) '':poultry_leg:'' (''stew'', ''5.00'', ''6.00''),
      menu_line (\<lambda>p. p) '':spaghetti:'' (''penne'', ''4.00'', ''5.00'')]
   \<and> format_menu (\<lambda>p. p) [(''pasta'', (''penne'', ''4.00'', ''5.00'')), (''meat'', (''stew'', ''5.00'', ''6.00'')),
                            (''soup'', (''leek soup'', ''2.00'', ''2.50''))] =
       format_menu (\<lambda>p. p) [(''pasta'', (''penne'', ''4.00'', ''5.00'')), (''dessert'', (''pie'', ''1.00'', ''1.50'')),
                            (''meat'', (''stew'', ''5.00'', ''6.00'')), (''soup'', (''leek soup'', ''2.00'', ''2.50''))]
   \<and> format_menu (\<lambda>p. p) [(''soup'', (''leek soup'', ''2.00'', ''2.50'')), (''pasta'', (''penne'', ''4.00'', ''5.00'')),
                            (''dessert'', (''pie'', ''1.00'', ''1.50'')), (''meat'', (''stew'', ''5.00'', ''6.00''))] =
       format_menu (\<lambda>p. p) [(''pasta'', (''penne'', ''4.00'', ''5.00'')), (''dessert'', (''pie'', ''1.00'', ''1.50'')),
                            (''meat'', (''stew'', ''5.00'', ''6.00'')), (''soup'', (''leek soup'', ''2.00'', ''2.50''))]"
proof -
  let ?menu = "[(''pasta'', (''penne'', ''4.00'', ''5.00'')), (''dessert'', (''pie'', ''1.00'', ''1.50'')),
                (''meat'', (''stew'', ''5.00'', ''6.00'')), (''soup'', (''leek soup'', ''2.00'', ''2.50''))]"
  let ?menu' = "[(''soup'', (''leek soup'', ''2.00'', ''2.50'')), (''pasta'', (''penne'', ''4.00'', ''5.00'')),
                 (''dessert'', (''pie'', ''1.00'', ''1.50'')), (''meat'', (''stew'', ''5.00'', ''6.00''))]"
  have d: "distinct (map fst ?menu)"
    by simp
  note order = format_menu_priority_order [where menu = ?menu and fmt = "\<lambda>p. p", THEN mp, OF d]
  have lines: "message (\<lambda>p. p) ?menu =
     [menu_line (\<lambda>p. p) '':tea:'' (''leek soup'', ''2.00'', ''2.50''),
      menu_line (\<lambda>p. p) '':poultry_leg:'' (''stew'', ''5.00'', ''6.00''),
      menu_line (\<lambda>p. p) '':spaghetti:'' (''penne'', ''4.00'', ''5.00'')]"
    using order [THEN conjunct1] by (simp add: group_lines_def)
  have kept: "filter (\<lambda>(key, entry). recognised key) ?menu =
             [(''pasta'', (''penne'', ''4.00'', ''5.00'')), (''meat'', (''stew'', ''5.00'', ''6.00'')),
              (''soup'', (''leek soup'', ''2.00'', ''2.50''))]"
    by (simp add: recognised_def)
  have dropped: "format_menu (\<lambda>p. p) [(''pasta'', (''penne'', ''4.00'', ''5.00'')),
                   (''meat'', (''stew'', ''5.00'', ''6.00'')), (''soup'', (''leek soup'', ''2.00'', ''2.50''))] =
                 format_menu (\<lambda>p. p) ?menu"
    using order [THEN conjunct2, THEN conjunct1] by (simp only: kept)
  have d': "distinct (map fst ?menu')"
    by simp
  have s: "set ?menu' = set ?menu"
    by (simp add: insert_commute)
  have g: "filter (\<lambda>key. str_in ''grill'' key) (map fst ?menu') =
           filter (\<lambda>key. str_in ''grill'' key) (map fst ?menu)"
    by simp
  have p: "filter (\<lambda>key. str_in ''pasta'' key) (map fst ?menu') =
           filter (\<lambda>key. str_in ''pasta'' key) (map fst ?menu)"
    by simp
  have moved: "format_menu (\<lambda>p. p) ?menu' = format_menu (\<lambda>p. p) ?menu"
    by (rule order [THEN conjunct2, THEN conjunct2, THEN conjunct1, THEN spec, THEN mp])
       (intro conjI d' s g p)
  from lines dropped moved show ?thesis
    by (intro conjI)
qed

text \<open>
  Claim C10. A category whose name contains both \<^verbatim>\<open>grill\<close> and \<^verbatim>\<open>pasta\<close> gets two lines in
  the text \<^verbatim>\<open>format_menu\<close> returns: first a line with the grill icon, the item and its
  prices, then, on a later line, the same item and prices with the pasta icon. An entry
  with the single category \<^verbatim>\<open>grill pasta\<close> is formatted as exactly these two lines.
\<close>

theorem format_menu_grill_pasta:
  "(distinct (map fst menu) \<and> (key, (menu_item, price_student, price_staff)) \<in> set menu \<and>
      str_in ''grill'' key \<and> str_in ''pasta'' key
    \<longrightarrow> (\<exists>pre mid post. format_menu fmt menu =
            pre @
            ('':meat_on_bone: '' @ menu_item @ '' ('' @ euro @ fmt price_student @ '' / '' @
               euro @ fmt price_staff @ '')'') @
            newline @ mid @
            ('':spaghetti: '' @ menu_item @ '' ('' @ euro @ fmt price_student @ '' / '' @
               euro @ fmt price_staff @ '')'') @
            post)
        \<and> (\<exists>xs ys zs. message fmt menu =
              xs @ menu_line fmt '':meat_on_bone:'' (menu_item, price_student, price_staff) # ys @
              menu_line fmt '':spaghetti:'' (menu_item, price_student, price_staff) # zs))
   \<and> format_menu fmt [(''grill pasta'', (menu_item, price_student, price_staff))] =
       '':meat_on_bone: '' @ menu_item @ '' ('' @ euro @ fmt price_student @ '' / '' @
         euro @ fmt price_staff @ '')'' @
       newline @
       '':spaghetti: '' @ menu_item @ '' ('' @ euro @ fmt price_student @ '' / '' @
         euro @ fmt price_staff @ '')''"
proof (intro conjI impI)
  let ?entry = "(menu_item, price_student, price_staff)"
  assume a: "distinct (map fst menu) \<and> (key, ?entry) \<in> set menu \<and> str_in ''grill'' key \<and>
      str_in ''pasta'' key"
  then have d: "distinct (map fst menu)" by simp
  from a have "menu_line fmt '':meat_on_bone:'' ?entry \<in>
                 set (group_lines fmt '':meat_on_bone:'' (\<lambda>key. str_in ''grill'' key) menu)"
    by (force simp: group_lines_def)
  then obtain g1 g2 where g:
    "group_lines fmt '':meat_on_bone:'' (\<lambda>key. str_in ''grill'' key) menu =
       g1 @ menu_line fmt '':meat_on_bone:'' ?entry # g2"
    by (auto dest: split_list)
  from a have "menu_line fmt '':spaghetti:'' ?entry \<in>
                 set (group_lines fmt '':spaghetti:'' (\<lambda>key. str_in ''pasta'' key) menu)"
    by (force simp: group_lines_def)
  then obtain p1 p2 where p:
    "group_lines fmt '':spaghetti:'' (\<lambda>key. str_in ''pasta'' key) menu =
       p1 @ menu_line fmt '':spaghetti:'' ?entry # p2"
    by (auto dest: split_list)
  have lines: "message fmt menu =
          (group_lines fmt '':tea:'' (\<lambda>key. key = ''soup'') menu @
           group_lines fmt '':tomato:'' (\<lambda>key. key = ''vegetarian'') menu @
           group_lines fmt '':poultry_leg:'' (\<lambda>key. key = ''meat'') menu @ g1) @
          menu_line fmt '':meat_on_bone:'' ?entry # (g2 @ p1) @
          menu_line fmt '':spaghetti:'' ?entry # p2"
    by (simp only: message_groups [OF d] g p append_assoc append_Cons)
  then show "\<exists>xs ys zs. message fmt menu =
            xs @ menu_line fmt '':meat_on_bone:'' ?entry # ys @
            menu_line fmt '':spaghetti:'' ?entry # zs"
    by blast
  from join_two_lines obtain pre mid post where
    "join newline
       ((group_lines fmt '':tea:'' (\<lambda>key. key = ''soup'') menu @
         group_lines fmt '':tomato:'' (\<lambda>key. key = ''vegetarian'') menu @
         group_lines fmt '':poultry_leg:'' (\<lambda>key. key = ''meat'') menu @ g1) @
        menu_line fmt '':meat_on_bone:'' ?entry # (g2 @ p1) @
        menu_line fmt '':spaghetti:'' ?entry # p2) =
     pre @ menu_line fmt '':meat_on_bone:'' ?entry @ newline @ mid @
     menu_line fmt '':spaghetti:'' ?entry @ post"
    by blast
  then have "format_menu fmt menu =
     pre @ menu_line fmt '':meat_on_bone:'' ?entry @ newline @ mid @
     menu_line fmt '':spaghetti:'' ?entry @ post"
    by (simp only: format_menu_def lines)
  then have "format_menu fmt menu =
            pre @
            ('':meat_on_bone: '' @ menu_item @ '' ('' @ euro @ fmt price_student @ '' / '' @
               euro @ fmt price_staff @ '')'') @
            newline @ mid @
            ('':spaghetti: '' @ menu_item @ '' ('' @ euro @ fmt price_student @ '' / '' @
               euro @ fmt price_staff @ '')'') @
            post"
    by (simp add: menu_line_def)
  then show "\<exists>pre mid post. format_menu fmt menu =
            pre @
            ('':meat_on_bone: '' @ menu_item @ '' ('' @ euro @ fmt price_student @ '' / '' @
               euro @ fmt price_staff @ '')'') @
            newline @ mid @
            ('':spaghetti: '' @ menu_item @ '' ('' @ euro @ fmt price_student @ '' / '' @
               euro @ fmt price_staff @ '')'') @
            post"
    by blast
next
  show "format_menu fmt [(''grill pasta'', (menu_item, price_student, price_staff))] =
       '':meat_on_bone: '' @ menu_item @ '' ('' @ euro @ fmt price_student @ '' / '' @
         euro @ fmt price_staff @ '')'' @
       newline @
       '':spaghetti: '' @ menu_item @ '' ('' @ euro @ fmt price_student @ '' / '' @
         euro @ fmt price_staff @ '')''"
    by (simp add: format_menu_def message_def menu_line_def)
qed

text \<open>
  The entry of the sample store: the soup line, then the grilled chicken penne twice.
\<close>

theorem format_menu_grill_pasta_witness:
  "(\<exists>pre mid post.
      format_menu (\<lambda>p. p) [(''soup'', (''tomato soup'', ''3.00'', ''4.00'')),
                            (''grill pasta'', (''grilled chicken penne'', ''5.00'', ''6.50''))] =
      pre @ ('':meat_on_bone: grilled chicken penne ('' @ euro @ ''5.00 / '' @ euro @ ''6.50)'') @
      newline @ mid @
      ('':spaghetti: grilled chicken penne ('' @ euro @ ''5.00 / '' @ euro @ ''6.50)'') @ post)
   \<and> format_menu (\<lambda>p. p) [(''grill pasta'', (''grilled chicken penne'', ''5.00'', ''6.50''))] =
       '':meat_on_bone: grilled chicken penne ('' @ euro @ ''5.00 / '' @ euro @ ''6.50)'' @
       newline @
       '':spaghetti: grilled chicken penne ('' @ euro @ ''5.00 / '' @ euro @ ''6.50)''"
proof -
  let ?menu = "[(''soup'', (''tomato soup'', ''3.00'', ''4.00'')),
                (''grill pasta'', (''grilled chicken penne'', ''5.00'', ''6.50''))]"
  have h: "distinct (map fst ?menu) \<and>
      (''grill pasta'', (''grilled chicken penne'', ''5.00'', ''6.50'')) \<in> set ?menu \<and>
      str_in ''grill'' ''grill pasta'' \<and> str_in ''pasta'' ''grill pasta''"
    by simp
  note inst = format_menu_grill_pasta [where menu = ?menu and key = "''grill pasta''" and
      menu_item = "''grilled chicken penne''" and price_student = "''5.00''" and
      price_staff = "''6.50''" and fmt = "\<lambda>p. p"]
  from inst [THEN conjunct1, THEN mp, OF h, THEN conjunct1]
  have 1: "\<exists>pre mid post.
      format_menu (\<lambda>p. p) ?menu =
      pre @ ('':meat_on_bone: grilled chicken penne ('' @ euro @ ''5.00 / '' @ euro @ ''6.50)'') @
      newline @ mid @
      ('':spaghetti: grilled chicken penne ('' @ euro @ ''5.00 / '' @ euro @ ''6.50)'') @ post"
    by simp
  from inst [THEN conjunct2]
  have 2: "format_menu (\<lambda>p. p) [(''grill pasta'', (''grilled chicken penne'', ''5.00'', ''6.50''))] =
       '':meat_on_bone: grilled chicken penne ('' @ euro @ ''5.00 / '' @ euro @ ''6.50)'' @
       newline @
       '':spaghetti: grilled chicken penne ('' @ euro @ ''5.00 / '' @ euro @ ''6.50)''"
    by simp
  from 1 2 show ?thesis
    by (rule conjI)
qed

section \<open>Properties of the bot controller\<close>

subsection \<open>The trigger pattern\<close>

text \<open>
  \<open>eat\<close> takes one run of a character, and \<open>lunch_re\<close> accepts the texts the pattern
  \<^verbatim>\<open>^l+u+n+c+h+!+$\<close> matches.
\<close>

lemma dropWhile_run:
  "\<exists>n. xs = replicate n c @ dropWhile (\<lambda>y. y = c) xs"
proof (induction xs)
  case Nil
  then show ?case by simp
next
  case (Cons x xs)
  show ?case
  proof (cases "x = c")
    case True
    from Cons obtain n where n: "xs = replicate n c @ dropWhile (\<lambda>y. y = c) xs" by blast
    have "x # xs = replicate (Suc n) c @ dropWhile (\<lambda>y. y = c) (x # xs)"
      using True n by simp
    then show ?thesis by (rule exI)
  next
    case False
    then have "x # xs = replicate 0 c @ dropWhile (\<lambda>y. y = c) (x # xs)" by simp
    then show ?thesis by (rule exI)
  qed
qed

lemma dropWhile_replicate_other:
  "r = [] \<or> hd r \<noteq> c \<Longrightarrow> dropWhile (\<lambda>y. y = c) (replicate n c @ r) = r"
proof (induction n)
  case 0
  then show ?case by (cases r) auto
next
  case (Suc n)
  then show ?case by simp
qed

lemma eat_Some_iff:
  "eat c s = Some r \<longleftrightarrow> (\<exists>n. s = replicate (Suc n) c @ r) \<and> (r = [] \<or> hd r \<noteq> c)"
proof
  assume a: "eat c s = Some r"
  show "(\<exists>n. s = replicate (Suc n) c @ r) \<and> (r = [] \<or> hd r \<noteq> c)"
  proof (cases s)
    case Nil
    with a show ?thesis by (simp add: eat_def)
  next
    case (Cons x xs)
    with a have x: "x = c" and r: "r = dropWhile (\<lambda>y. y = c) xs"
      by (simp_all add: eat_def split: if_splits)
    from dropWhile_run [of xs c] obtain n where "xs = replicate n c @ r"
      unfolding r by (rule exE)
    then have "s = replicate (Suc n) c @ r" using Cons x by simp
    then have 1: "\<exists>n. s = replicate (Suc n) c @ r" by (rule exI)
    have 2: "r = [] \<or> hd r \<noteq> c"
      unfolding r using hd_dropWhile [of "\<lambda>y. y = c" xs] by auto
    from 1 2 show ?thesis by (rule conjI)
  qed
next
  assume "(\<exists>n. s = replicate (Suc n) c @ r) \<and> (r = [] \<or> hd r \<noteq> c)"
  then obtain n where n: "s = replicate (Suc n) c @ r" and r: "r = [] \<or> hd r \<noteq> c"
    by (elim conjE exE)
  show "eat c s = Some r"
    using dropWhile_replicate_other [OF r, of n] by (simp add: eat_def n)
qed


lemma eat_run:
  "r = [] \<or> hd r \<noteq> c \<Longrightarrow> eat c (replicate (Suc n) c @ r) = Some r"
  using eat_Some_iff [of c "replicate (Suc n) c @ r" r] by blast

lemma lunch_re_iff:
  "lunch_re text \<longleftrightarrow>
     (\<exists>a b c d e f rest.
        text = replicate (Suc a) CHR ''l'' @ replicate (Suc b) CHR ''u'' @
               replicate (Suc c) CHR ''n'' @ replicate (Suc d) CHR ''c'' @
               replicate (Suc e) CHR ''h'' @ replicate (Suc f) CHR ''!'' @ rest \<and>
        (rest = [] \<or> rest = newline))"
  (is "?lhs \<longleftrightarrow> ?rhs")
proof
  assume ?lhs
  then obtain s1 s2 s3 s4 s5 s6 where
    e1: "eat CHR ''l'' text = Some s1" and e2: "eat CHR ''u'' s1 = Some s2" and
    e3: "eat CHR ''n'' s2 = Some s3" and e4: "eat CHR ''c'' s3 = Some s4" and
    e5: "eat CHR ''h'' s4 = Some s5" and e6: "eat CHR ''!'' s5 = Some s6" and
    fin: "s6 = [] \<or> s6 = newline"
    by (auto simp: lunch_re_def split: option.splits)
  from e1 obtain a where a: "text = replicate (Suc a) CHR ''l'' @ s1"
    unfolding eat_Some_iff by blast
  from e2 obtain b where b: "s1 = replicate (Suc b) CHR ''u'' @ s2"
    unfolding eat_Some_iff by blast
  from e3 obtain c where c: "s2 = replicate (Suc c) CHR ''n'' @ s3"
    unfolding eat_Some_iff by blast
  from e4 obtain d where d: "s3 = replicate (Suc d) CHR ''c'' @ s4"
    unfolding eat_Some_iff by blast
  from e5 obtain e where e: "s4 = replicate (Suc e) CHR ''h'' @ s5"
    unfolding eat_Some_iff by blast
  from e6 obtain f where f: "s5 = replicate (Suc f) CHR ''!'' @ s6"
    unfolding eat_Some_iff by blast
  have "text = replicate (Suc a) CHR ''l'' @ replicate (Suc b) CHR ''u'' @
               replicate (Suc c) CHR ''n'' @ replicate (Suc d) CHR ''c'' @
               replicate (Suc e) CHR ''h'' @ replicate (Suc f) CHR ''!'' @ s6"
    by (simp only: a b c d e f)
  with fin show ?rhs by blast
next
  assume ?rhs
  then obtain a b c d e f rest where
    t: "text = replicate (Suc a) CHR ''l'' @ replicate (Suc b) CHR ''u'' @
               replicate (Suc c) CHR ''n'' @ replicate (Suc d) CHR ''c'' @
               replicate (Suc e) CHR ''h'' @ replicate (Suc f) CHR ''!'' @ rest" and
    fin: "rest = [] \<or> rest = newline"
    by blast
  let ?s5 = "replicate (Suc f) CHR ''!'' @ rest"
  let ?s4 = "replicate (Suc e) CHR ''h'' @ ?s5"
  let ?s3 = "replicate (Suc d) CHR ''c'' @ ?s4"
  let ?s2 = "replicate (Suc c) CHR ''n'' @ ?s3"
  let ?s1 = "replicate (Suc b) CHR ''u'' @ ?s2"
  have e1: "eat CHR ''l'' text = Some ?s1"
    unfolding t by (rule eat_run) simp
  have e2: "eat CHR ''u'' ?s1 = Some ?s2"
    by (rule eat_run) simp
  have e3: "eat CHR ''n'' ?s2 = Some ?s3"
    by (rule eat_run) simp
  have e4: "eat CHR ''c'' ?s3 = Some ?s4"
    by (rule eat_run) simp
  have e5: "eat CHR ''h'' ?s4 = Some ?s5"
    by (rule eat_run) simp
  have "rest = [] \<or> hd rest \<noteq> CHR ''!''"
    using fin by (auto simp: newline_def)
  then have e6: "eat CHR ''!'' ?s5 = Some rest"
    by (rule eat_run)
  have "eat_runs ''lunch!'' text = Some rest"
    by (simp only: eat_runs.simps e1 e2 e3 e4 e5 e6 option.case)
  with fin show ?lhs
    by (simp add: lunch_re_def)
qed

subsection \<open>The channel\<close>

text \<open>
  Claim C9. A message that is not from a bot and has a text, but has no \<^verbatim>\<open>channel\<close> key,
  makes \<^verbatim>\<open>process_message\<close> raise at the check of the channel (\<^verbatim>\<open>AttributeError\<close>, from
  \<^verbatim>\<open>None.startswith\<close>): it is not ignored, nothing is sent and nothing is logged.
\<close>

theorem process_message_no_channel:
  "msg_username data \<noteq> Some ''komidabot'' \<and>
   (\<forall>subtype. msg_subtype data = Some subtype \<longrightarrow> \<not> str_in ''bot'' subtype) \<and>
   msg_text data = Some t \<and> msg_channel data = None
   \<longrightarrow> process_message env w data = (Inl AttributeError, w)"
  by (auto simp: process_message_def Let_def split: option.splits)

theorem process_message_no_channel_witness:
  "process_message example_env example_world (example_message\<lparr>msg_channel := None\<rparr>) =
     (Inl AttributeError, example_world)"
  using process_message_no_channel [of "example_message\<lparr>msg_channel := None\<rparr>" "''Komidabot CST''"
      example_env example_world]
  by (simp add: example_message_def)


subsection \<open>The recovery path\<close>

text \<open>
  An exception of the interim notice or of the refresh job ends the body of the \<^verbatim>\<open>try\<close>
  statement with that exception; so does one of the second lookup, whose result is the
  result of the body.
\<close>

lemma try_update_raises:
  "api_reply env (length (posted w)) = Inl e \<Longrightarrow>
     fst (try_update env channel campuses dates w) = Inl e"
  "api_reply env (length (posted w)) = Inr \<lparr>r_ok = Some True, r_error = None\<rparr> \<Longrightarrow>
     fst (update_run env
            (logging (LogDebug ''No menu found, updating...'') w
               \<lparr>posted := posted w @
                  [post_message channel
                     (''I don't have the menu for '' @ str_upper env (join '', '' campuses) @
                      '' on '' @ join '', '' (map (strftime env) dates) @
                      ''. Let me see if I can find it online...'') None]\<rparr>)) = Some e \<Longrightarrow>
     fst (try_update env channel campuses dates w) = Inl e"
  by (auto simp: try_update_def slack_api_call_def logging_def check_response_def
      split: prod.splits sum.splits option.splits)

lemma reply_acknowledged:
  assumes "api_reply env (length (posted w)) = Inr \<lparr>r_ok = Some True, r_error = None\<rparr>"
  shows "fst (reply env channel [] w) = Inr ()"
  using assms by (simp add: reply_def slack_api_call_def check_response_def)

text \<open>
  Claim C7, as the specification states it: every exception raised on the recovery path
  is caught and logged, and none reaches the caller. The handler is
  \<^verbatim>\<open>except Exception\<close>: when the refresh job ends with \<^verbatim>\<open>KeyboardInterrupt\<close>, the exception
  leaves \<^verbatim>\<open>process_message\<close>, the log holds the debug record alone, and the interim notice
  is the only message sent.
\<close>

theorem recovery_interrupt_propagates:
  "fst (process_message interrupted_env example_world example_message) = Inl KeyboardInterrupt
   \<and> logged (snd (process_message interrupted_env example_world example_message)) =
       [LogDebug ''No menu found, updating...'']
   \<and> map call_text (posted (snd (process_message interrupted_env example_world example_message))) =
       [''I don't have the menu for CST on Wednesday 04 November. Let me see if I can find it online...'']"
proof -
  let ?w1 = "example_world\<lparr>db_log := [Connect, Execute 739924 ''cst'']\<rparr>"
  have lower: "str_lower interrupted_env ''Komidabot CST'' = ''komidabot cst''"
    by (simp add: interrupted_env_def example_env_def ascii_lower_def)
  have today: "clock_today interrupted_env = 739924"
    by (simp add: interrupted_env_def example_env_def)
  have campus: "get_campus ''komidabot cst'' = [''cst'']"
    by (simp add: get_campus_def campus_options_def)
  have upper: "str_upper interrupted_env ''cst'' = ''CST''"
    by (simp add: interrupted_env_def example_env_def ascii_upper_def)
  have day: "strftime interrupted_env 739924 = ''Wednesday 04 November''"
    by (simp add: interrupted_env_def example_env_def example_strftime_def)
  have dates: "get_date 739924 ''komidabot cst'' = Inr [739924]"
    by (simp add: get_date_def date_options_def add_days_def MAXORDINAL_def)
  have first_lookup: "get_menu example_world [''cst''] [739924] = (Inr [], ?w1)"
    by (simp add: get_menu_def sqlite3_connect_def execute_fetchall_def example_world_def
        example_table_def)
  have api: "api_reply interrupted_env n = Inr \<lparr>r_ok = Some True, r_error = None\<rparr>" for n
    by (simp add: interrupted_env_def example_env_def)
  have upd: "update_run interrupted_env w = (Some KeyboardInterrupt, w)" for w
    by (simp add: interrupted_env_def)
  obtain r w2 where run: "try_update interrupted_env ''C024BE91L'' [''cst''] [739924] ?w1 = (r, w2)"
    by (cases "try_update interrupted_env ''C024BE91L'' [''cst''] [739924] ?w1")
  have r: "r = Inl KeyboardInterrupt"
    using run
    by (simp add: try_update_def slack_api_call_def check_response_def logging_def api upd)
  have l: "logged w2 = [LogDebug ''No menu found, updating...'']"
    using run
    by (auto simp: try_update_def slack_api_call_def check_response_def logging_def api upd
        example_world_def)
  have p: "map call_text (posted w2) =
       [''I don't have the menu for CST on Wednesday 04 November. Let me see if I can find it online...'']"
    using run
    by (auto simp: try_update_def slack_api_call_def check_response_def logging_def api upd
        post_message_def upper day example_world_def)
  have "process_message interrupted_env example_world example_message = (Inl KeyboardInterrupt, w2)"
    by (simp add: process_message_def example_message_def lower today campus dates first_lookup
        force_update_def run r)
  with l p show ?thesis by simp
qed

text \<open>
  Claim C7, amended. Let a message pass the filters and the first lookup return no menu.
  Whatever instance of \<^verbatim>\<open>Exception\<close> ends the recovery path (interim notice, refresh,
  second lookup), it is caught and logged, and \<^verbatim>\<open>process_message\<close> goes on to the reply
  with the menus it held, which are empty, so that it returns normally when the Slack
  client acknowledges the reply; when the path ends without exception, it replies with
  the menus of the second lookup. An exception that is not an instance of \<^verbatim>\<open>Exception\<close>
  (\<^verbatim>\<open>KeyboardInterrupt\<close>, \<^verbatim>\<open>SystemExit\<close>) is not caught: it reaches the caller, unlogged
  and with no reply sent.
\<close>

theorem recovery_exceptions_swallowed:
  assumes not_bot: "msg_username data \<noteq> Some ''komidabot''"
      "\<forall>subtype. msg_subtype data = Some subtype \<longrightarrow> \<not> str_in ''bot'' subtype"
    and has_text: "msg_text data = Some t"
    and has_channel: "msg_channel data = Some channel"
    and in_scope: "startswith channel ''C'' \<longrightarrow>
                     str_in ''komidabot'' (str_lower env t) \<or> lunch_re (str_lower env t)"
    and dates: "get_date (clock_today env) (str_lower env t) = Inr dates"
    and first_lookup: "get_menu w (get_campus (str_lower env t)) dates = (Inr [], w1)"
  shows "(\<forall>e w2. try_update env channel (get_campus (str_lower env t)) dates w1 = (Inl e, w2) \<and>
                  is_Exception e \<longrightarrow>
            process_message env w data =
              reply env channel []
                (logging (LogException ''Problem while updating the menu: '' e) w2) \<and>
            (api_reply env (length (posted w2)) = Inr \<lparr>r_ok = Some True, r_error = None\<rparr> \<longrightarrow>
               fst (process_message env w data) = Inr ()))
       \<and> (\<forall>e w2. try_update env channel (get_campus (str_lower env t)) dates w1 = (Inl e, w2) \<and>
                  \<not> is_Exception e \<longrightarrow>
            process_message env w data = (Inl e, w2))
       \<and> (\<forall>menus w2. try_update env channel (get_campus (str_lower env t)) dates w1 = (Inr menus, w2) \<longrightarrow>
            process_message env w data = reply env channel menus w2)"
proof -
  have bot: "\<not> (case msg_subtype data of None \<Rightarrow> False | Some subtype \<Rightarrow> str_in ''bot'' subtype)"
    using not_bot(2) by (simp split: option.splits)
  have flow: "process_message env w data =
      (case force_update env channel (get_campus (str_lower env t)) dates [] w1 of
         (Inl e, w2) \<Rightarrow> (Inl e, w2)
       | (Inr menus', w2) \<Rightarrow> reply env channel menus' w2)"
    using not_bot(1) bot in_scope
    by (auto simp: process_message_def has_text has_channel dates first_lookup Let_def)
  show ?thesis
  proof (intro conjI allI impI)
    fix e w2
    assume raised: "try_update env channel (get_campus (str_lower env t)) dates w1 = (Inl e, w2) \<and>
                    is_Exception e"
    then show caught: "process_message env w data =
              reply env channel []
                (logging (LogException ''Problem while updating the menu: '' e) w2)"
      by (simp add: flow force_update_def)
    assume "api_reply env (length (posted w2)) = Inr \<lparr>r_ok = Some True, r_error = None\<rparr>"
    then have "api_reply env
                 (length (posted (logging (LogException ''Problem while updating the menu: '' e) w2))) =
               Inr \<lparr>r_ok = Some True, r_error = None\<rparr>"
      by (simp add: logging_def)
    then show "fst (process_message env w data) = Inr ()"
      unfolding caught by (rule reply_acknowledged)
  next
    fix e w2
    assume "try_update env channel (get_campus (str_lower env t)) dates w1 = (Inl e, w2) \<and>
            \<not> is_Exception e"
    then show "process_message env w data = (Inl e, w2)"
      by (simp add: flow force_update_def)
  next
    fix menus w2
    assume "try_update env channel (get_campus (str_lower env t)) dates w1 = (Inr menus, w2)"
    then show "process_message env w data = reply env channel menus w2"
      by (simp add: flow force_update_def)
  qed
qed

text \<open>
  The refresh job raises; the message that no menu was found is sent, and the call
  returns with the exception in the log.
\<close>

theorem recovery_exceptions_swallowed_witness:
  "fst (try_update example_env ''C024BE91L'' [''cst''] [739924]
          (example_world\<lparr>db_log := [Connect, Execute 739924 ''cst'']\<rparr>)) =
     Inl (Error ''connection refused'')
   \<and> fst (process_message example_env example_world example_message) = Inr ()
   \<and> logged (snd (process_message example_env example_world example_message)) =
       [LogDebug ''No menu found, updating...'',
        LogException ''Problem while updating the menu: '' (Error ''connection refused'')]"
proof -
  let ?w1 = "example_world\<lparr>db_log := [Connect, Execute 739924 ''cst'']\<rparr>"
  have lower: "str_lower example_env ''Komidabot CST'' = ''komidabot cst''"
    by (simp add: example_env_def ascii_lower_def)
  have campus: "get_campus ''komidabot cst'' = [''cst'']"
    by (simp add: get_campus_def campus_options_def)
  have dates: "get_date (clock_today example_env) (str_lower example_env ''Komidabot CST'') =
                 Inr [739924]"
    unfolding lower
    by (simp add: example_env_def get_date_def date_options_def add_days_def MAXORDINAL_def)
  have first_lookup:
    "get_menu example_world (get_campus (str_lower example_env ''Komidabot CST'')) [739924] =
       (Inr [], ?w1)"
    unfolding lower campus
    by (simp add: get_menu_def sqlite3_connect_def execute_fetchall_def example_world_def
        example_table_def)
  have in_scope: "startswith ''C024BE91L'' ''C'' \<longrightarrow>
      str_in ''komidabot'' (str_lower example_env ''Komidabot CST'') \<or>
      lunch_re (str_lower example_env ''Komidabot CST'')"
    unfolding lower by simp
  obtain r w2 where run: "try_update example_env ''C024BE91L'' [''cst''] [739924] ?w1 = (r, w2)"
    by (cases "try_update example_env ''C024BE91L'' [''cst''] [739924] ?w1")
  have r: "r = Inl (Error ''connection refused'')"
    using run
    by (simp add: try_update_def slack_api_call_def check_response_def logging_def
        example_env_def example_world_def)
  have ack: "api_reply example_env (length (posted w2)) = Inr \<lparr>r_ok = Some True, r_error = None\<rparr>"
    by (simp add: example_env_def)
  have w2: "logged w2 = [LogDebug ''No menu found, updating...'']"
    using run
    by (auto simp: try_update_def slack_api_call_def check_response_def logging_def
        example_env_def example_world_def)
  have raised: "try_update example_env ''C024BE91L''
                  (get_campus (str_lower example_env ''Komidabot CST'')) [739924] ?w1 =
                (Inl (Error ''connection refused''), w2)"
    unfolding lower campus using run r by simp
  have m1: "msg_username example_message \<noteq> Some ''komidabot''"
    by (simp add: example_message_def)
  have m2: "\<forall>subtype. msg_subtype example_message = Some subtype \<longrightarrow> \<not> str_in ''bot'' subtype"
    by (simp add: example_message_def)
  have m3: "msg_text example_message = Some ''Komidabot CST''"
    by (simp add: example_message_def)
  have m4: "msg_channel example_message = Some ''C024BE91L''"
    by (simp add: example_message_def)
  have caught: "try_update example_env ''C024BE91L''
                  (get_campus (str_lower example_env ''Komidabot CST'')) [739924] ?w1 =
                (Inl (Error ''connection refused''), w2) \<and>
                is_Exception (Error ''connection refused'')"
    using raised by simp
  note swallowed = recovery_exceptions_swallowed [OF m1 m2 m3 m4 in_scope dates first_lookup]
  have facts: "process_message example_env example_world example_message =
           reply example_env ''C024BE91L'' []
             (logging (LogException ''Problem while updating the menu: ''
                (Error ''connection refused'')) w2) \<and>
         fst (process_message example_env example_world example_message) = Inr ()"
    using swallowed [THEN conjunct1, THEN spec, THEN spec, THEN mp, OF caught, THEN conjunct1]
      swallowed [THEN conjunct1, THEN spec, THEN spec, THEN mp, OF caught, THEN conjunct2,
        THEN mp, OF ack]
    by (rule conjI)
  have l: "logged (snd (reply example_env ''C024BE91L'' []
             (logging (LogException ''Problem while updating the menu: ''
                (Error ''connection refused'')) w2))) =
        [LogDebug ''No menu found, updating...'',
         LogException ''Problem while updating the menu: '' (Error ''connection refused'')]"
    by (simp add: reply_def slack_api_call_def check_response_def logging_def example_env_def w2)
  have a: "fst (try_update example_env ''C024BE91L'' [''cst''] [739924] ?w1) =
             Inl (Error ''connection refused'')"
    using run r by simp
  have c: "logged (snd (process_message example_env example_world example_message)) =
       [LogDebug ''No menu found, updating...'',
        LogException ''Problem while updating the menu: '' (Error ''connection refused'')]"
    by (simp only: facts [THEN conjunct1] l)
  from a facts [THEN conjunct2] c show ?thesis
    by (intro conjI)
qed

end
